theory Spec2Isabelle
  imports Main "HOL-Library.AList"
begin



section \<open>Values, errors and the validator's state\<close>

text \<open>
  The exceptions of the Python source, as values. The constructor names are the error
  kinds of the specification; the Python exception each one stands for is given here.
  \<^item> \<open>KeyError\<close>: a missing dictionary key (\<open>del d[k]\<close>, \<open>d[k]\<close>, \<open>get_struct\<close>).
  \<^item> \<open>TypeMismatch\<close>: the \<open>AssertionError\<close> of an \<open>assert isinstance(...)\<close>.
  \<^item> \<open>MissingRequiredStructure\<close>: the \<open>TypeError\<close> of the required-name check, with
    the missing names.
  \<^item> \<open>UnknownStructure\<close>: the \<open>AttributeError\<close> for a name that is no structure.
  \<^item> \<open>FieldValidationError\<close>: what a datatype validator raises on a rejected value.
  \<^item> \<open>SchemaInvalid\<close>: what the compiled schema raises on a key it does not know.
  \<^item> \<open>AttributeError\<close>: Python's own error for an attribute an object does not have.
  \<^item> \<open>PyTypeError\<close>: Python's own \<open>TypeError\<close> (a call with the wrong arguments, a
    subscript on the wrong type).
  \<^item> \<open>IndexError\<close>: a list index out of range.
  \<^item> \<open>DocumentValidationError\<close>: the \<open>Exception\<close> raised by \<open>Base.validate\<close>, whose
    message embeds \<open>str(e)\<close> of the underlying error.
\<close>

datatype error =
    KeyError
  | TypeMismatch string
  | MissingRequiredStructure "string list"
  | UnknownStructure string
  | FieldValidationError string
  | SchemaInvalid string
  | AttributeError string
  | PyTypeError string
  | IndexError
  | DocumentValidationError error

text \<open>
  The classes generated at run time: the class of \<open>Base.metaclass()\<close> and, for every
  structure name, the class cached under that name in \<open>__metaclasses__\<close>.
\<close>

datatype cls = BaseCls | StructCls string

text \<open>
  Python values: JSON data, instances of generated classes (with their attribute slots),
  the list subclass \<open>MultiGroupMetaClass\<close> of a group, the wrapper \<open>FieldMetaClass\<close>
  of a field (with its \<open>__value__\<close>), and any other object (with the name of its class
  and its \<open>__dict__\<close>).
  A dictionary is an association list in insertion order, with distinct keys.
\<close>

datatype pyval =
    PNone
  | PBool bool
  | PInt int
  | PStr string
  | PList "pyval list"
  | PDict "(string \<times> pyval) list"
  | PInst cls "(string \<times> pyval) list"
  | PMulti string "pyval list"
  | PField string pyval
  | PObj string "(string \<times> pyval) list"

type_synonym pydict = "(string \<times> pyval) list"

text \<open>
  The document metadata object \<open>_meta\<close>: its \<open>id_doc\<close> attribute and its \<open>__dict__\<close>.
\<close>

record doc_meta =
  id_doc :: int
  attrs :: pydict

text \<open>
  The mutable state \<open>Base.validate\<close> works on: the two scratch dictionaries of the base,
  keyed by document id, and the store of the dictionaries that callers hold by
  reference (an address is a natural number).
\<close>

record base_state =
  files :: "int \<rightharpoonup> pyval list"
  reldata :: "int \<rightharpoonup> pydict"
  heap :: "nat \<Rightarrow> pydict"

section \<open>\<open>Base.validate\<close> (lbbase/struct.py)\<close>

text \<open>
  Lines 86 to 93: the scratch entries for the id are created, and the \<open>_metadata\<close> key
  is deleted from the dictionary the caller passed (\<open>if '_metadata' in document: del
  document['_metadata']\<close>).
\<close>

definition validate_prepare :: "base_state \<Rightarrow> nat \<Rightarrow> doc_meta \<Rightarrow> base_state" where
  "validate_prepare s document meta =
     (let s1 = s\<lparr>files := (files s)(id_doc meta \<mapsto> [])\<rparr>;
          s2 = s1\<lparr>reldata := (reldata s1)(id_doc meta \<mapsto> [])\<rparr>
      in s2\<lparr>heap := (heap s2)(document := AList.delete ''_metadata'' (heap s2 document))\<rparr>)"

text \<open>
  Lines 101 to 105, the \<open>except\<close> branch: \<open>del self.__files__[id]\<close>, then
  \<open>del self.__reldata__[id]\<close> (each a \<open>KeyError\<close> when the key is gone), then the
  \<open>Exception\<close> carrying the cause.
\<close>

definition validate_rollback :: "base_state \<Rightarrow> int \<Rightarrow> error \<Rightarrow> error \<times> base_state" where
  "validate_rollback s i e =
     (case files s i of
        None \<Rightarrow> (KeyError, s)
      | Some _ \<Rightarrow>
          (let s1 = s\<lparr>files := (files s)(i := None)\<rparr> in
           case reldata s1 i of
             None \<Rightarrow> (KeyError, s1)
           | Some _ \<Rightarrow> (DocumentValidationError e, s1\<lparr>reldata := (reldata s1)(i := None)\<rparr>)))"

text \<open>
  The whole method. \<open>schema_app\<close> stands for \<open>self.schema(id)\<close> applied to the document:
  the compiled validator is code outside this repository, so it is a parameter; it gets
  the address of the document and the state, and returns an error or the address of
  the validated document, and the state it leaves. The result tuple holds the address
  of the returned document, \<open>self.__reldata__[id]\<close>, \<open>self.__files__[id]\<close> and \<open>[]\<close>.
\<close>

definition validate ::
  "(nat \<Rightarrow> base_state \<Rightarrow> (error + nat) \<times> base_state) \<Rightarrow> base_state \<Rightarrow> nat \<Rightarrow> doc_meta \<Rightarrow>
   (error + nat \<times> pydict \<times> pyval list \<times> pyval list) \<times> base_state" where
  "validate schema_app s document meta =
     (case schema_app document (validate_prepare s document meta) of
        (Inl e, s3) \<Rightarrow>
          (case validate_rollback s3 (id_doc meta) e of (e', s4) \<Rightarrow> (Inl e', s4))
      | (Inr d, s3) \<Rightarrow>
          (let s4 = s3\<lparr>heap := (heap s3)(d := AList.update ''_metadata'' (PDict (attrs meta)) (heap s3 d))\<rparr> in
           case reldata s4 (id_doc meta) of
             None \<Rightarrow> (Inl KeyError, s4)
           | Some rd \<Rightarrow>
               (case files s4 (id_doc meta) of
                  None \<Rightarrow> (Inl KeyError, s4)
                | Some fs \<Rightarrow> (Inr (d, rd, fs, []), s4))))"

text \<open>
  A state with no scratch entries and an empty store, a document id, and two compiled
  schemas used as concrete inputs: one that rejects every document, and one that
  accepts the document and returns a fresh copy of it at the next address (a dict
  schema of the validator library builds its result in a new dictionary).
\<close>

definition ex_state :: base_state where
  "ex_state = \<lparr>files = Map.empty, reldata = Map.empty,
      heap = (\<lambda>a. if a = 0 then [(''_metadata'', PInt 1), (''title'', PStr ''X'')] else [])\<rparr>"

definition ex_meta :: doc_meta where
  "ex_meta = \<lparr>id_doc = 7, attrs = [(''id_doc'', PInt 7)]\<rparr>"

definition ex_reject :: "nat \<Rightarrow> base_state \<Rightarrow> (error + nat) \<times> base_state" where
  "ex_reject d s = (Inl (SchemaInvalid ''title''), s)"

definition ex_copy :: "nat \<Rightarrow> base_state \<Rightarrow> (error + nat) \<times> base_state" where
  "ex_copy d s = (Inr (Suc d), s\<lparr>heap := (heap s)(Suc d := heap s d)\<rparr>)"

section \<open>The structure model and \<open>Base.schema\<close>\<close>

text \<open>
  Modelled from the spec: the classes \<open>Field\<close>, \<open>Group\<close> and \<open>Content\<close> are not
  among the source files. A \<open>Field\<close> has a name, the name of its datatype, a required
  flag and a multivalued flag; a \<open>Group\<close> has the name and the multivalued flag of its
  metadata, a nested content, and a group-level required flag, which is an attribute
  the object may lack (\<open>None\<close>). A content is the list of its structures in order.
\<close>

datatype struct =
    Field string string bool bool
  | Group string bool "bool option" "struct list"

fun is_field :: "struct \<Rightarrow> bool" where
  "is_field (Field n dt req mv) = True"
| "is_field (Group n mv req c) = False"

fun is_group :: "struct \<Rightarrow> bool" where
  "is_group (Field n dt req mv) = False"
| "is_group (Group n mv req c) = True"

text \<open>
  \<open>struct.name\<close> for a field, \<open>struct.metadata.name\<close> for a group (struct.py, lines
  124 to 127 and 285 to 288).
\<close>

fun sname :: "struct \<Rightarrow> string" where
  "sname (Field n dt req mv) = n"
| "sname (Group n mv req c) = n"

text \<open>\<open>getattr(struct, 'required', False)\<close>, taken as a truth value.\<close>

fun struct_required :: "struct \<Rightarrow> bool" where
  "struct_required (Field n dt req mv) = req"
| "struct_required (Group n mv None c) = False"
| "struct_required (Group n mv (Some req) c) = req"

text \<open>
  A key of the dictionary handed to the validator library: the plain name, or the name
  wrapped in its \<open>Required\<close> marker.
\<close>

datatype skey = Plain string | Required string

definition schema_key :: "struct \<Rightarrow> skey" where
  "schema_key struct =
     (if struct_required struct then Required (sname struct) else Plain (sname struct))"

text \<open>
  \<open>Base.schema\<close> of lbbase/struct.py, lines 122 to 131: the loop updates a dictionary
  that starts empty. \<open>struct_schema\<close> stands for \<open>struct.schema(self, id)\<close>, a method of
  the absent classes.
\<close>

definition Base_schema :: "(struct \<Rightarrow> 'v) \<Rightarrow> struct list \<Rightarrow> (skey \<times> 'v) list" where
  "Base_schema struct_schema content =
     fold (\<lambda>struct schema. AList.update (schema_key struct) (struct_schema struct) schema)
       content []"

text \<open>
  \<open>Base.schema\<close> of lbbase/__init__.py, lines 70 to 78. A structure of that older
  interface has a \<open>name\<close>, a \<open>schema\<close>, and possibly an attribute \<open>required\<close>, an object
  that carries the flag in its own attribute \<open>required\<close>.
\<close>

record 'v attr =
  attr_name :: string
  attr_required :: "pyval option"
  attr_schema :: 'v

text \<open>The truth value Python gives a value in \<open>if value:\<close>.\<close>

fun truthy :: "pyval \<Rightarrow> bool" where
  "truthy PNone = False"
| "truthy (PBool b) = b"
| "truthy (PInt n) = (n \<noteq> 0)"
| "truthy (PStr s) = (s \<noteq> [])"
| "truthy (PList xs) = (xs \<noteq> [])"
| "truthy (PDict d) = (d \<noteq> [])"
| "truthy (PInst c slots) = True"
| "truthy (PMulti g xs) = (xs \<noteq> [])"
| "truthy (PField f v) = True"
| "truthy (PObj c d) = True"

text \<open>
  \<open>value.required\<close>: the attribute of an object; every other value has no such
  attribute.
\<close>

fun getattr_required :: "pyval \<Rightarrow> error + pyval" where
  "getattr_required (PObj c d) =
     (case map_of d ''required'' of None \<Rightarrow> Inl (AttributeError ''required'') | Some v \<Rightarrow> Inr v)"
| "getattr_required v = Inl (AttributeError ''required'')"

definition lbbase_schema_key :: "'v attr \<Rightarrow> error + skey" where
  "lbbase_schema_key a =
     (case attr_required a of
        None \<Rightarrow> Inr (Plain (attr_name a))
      | Some required \<Rightarrow>
          if truthy required then
            (case getattr_required required of
               Inl e \<Rightarrow> Inl e
             | Inr flag \<Rightarrow>
                 Inr (if flag = PBool True then Required (attr_name a) else Plain (attr_name a)))
          else Inr (Plain (attr_name a)))"

fun lbbase_Base_schema_loop ::
  "'v attr list \<Rightarrow> (skey \<times> 'v) list \<Rightarrow> error + (skey \<times> 'v) list" where
  "lbbase_Base_schema_loop [] schema = Inr schema"
| "lbbase_Base_schema_loop (a # as) schema =
     (case lbbase_schema_key a of
        Inl e \<Rightarrow> Inl e
      | Inr name \<Rightarrow> lbbase_Base_schema_loop as (AList.update name (attr_schema a) schema))"

definition lbbase_Base_schema :: "'v attr list \<Rightarrow> error + (skey \<times> 'v) list" where
  "lbbase_Base_schema content = lbbase_Base_schema_loop content []"

text \<open>The required flag of a structure of the older interface: \<open>attr.required.required\<close>.\<close>

definition attr_flag :: "'v attr \<Rightarrow> bool" where
  "attr_flag a =
     (case attr_required a of
        Some (PObj c d) \<Rightarrow> map_of d ''required'' = Some (PBool True)
      | _ \<Rightarrow> False)"

text \<open>The key that the loop of lbbase/__init__.py gives a structure when it does not fail.\<close>

definition attr_key :: "'v attr \<Rightarrow> skey" where
  "attr_key a = (if attr_flag a then Required (attr_name a) else Plain (attr_name a))"

text \<open>Concrete contents used as inputs: the schema of the spec's first scenario.\<close>

definition ex_content :: "struct list" where
  "ex_content =
     [Field ''title'' ''Text'' True False,
      Group ''author'' False (Some True) [Field ''name'' ''Text'' True False]]"

definition ex_attrs :: "nat attr list" where
  "ex_attrs =
     [\<lparr>attr_name = ''title'',
        attr_required = Some (PObj ''Required'' [(''required'', PBool True)]), attr_schema = 1\<rparr>,
      \<lparr>attr_name = ''tags'',
        attr_required = Some (PObj ''Required'' [(''required'', PBool False)]), attr_schema = 2\<rparr>,
      \<lparr>attr_name = ''author'', attr_required = None, attr_schema = 3\<rparr>]"

section \<open>Generated classes (lbdoc/metaclass.py, \<open>Base.metaclass\<close> of lbbase/struct.py)\<close>

text \<open>
  Modelled from the spec: the properties \<open>__snames__\<close>, \<open>__rnames__\<close> and
  \<open>__allstructs__\<close> of the absent class \<open>Content\<close>. \<open>snames\<close> are the legal child
  names of a content, in order; \<open>rnames\<close> is the required-name set, the names of the
  structures whose required flag is true; \<open>allstructs\<close> is the dictionary from
  structure name to structure over the whole tree (looked up with \<open>map_of\<close>). Structure
  names are document keys and are taken not to start with an underscore, so that the
  private attribute \<open>'_' + name\<close> of one structure is never the name of another.
\<close>

definition snames :: "struct list \<Rightarrow> string list" where
  "snames content = map sname content"

definition rnames :: "struct list \<Rightarrow> string list" where
  "rnames content = map sname (filter struct_required content)"

primrec allstructs_of :: "struct \<Rightarrow> (string \<times> struct) list"
  and allstructs :: "struct list \<Rightarrow> (string \<times> struct) list" where
  "allstructs_of (Field n dt req mv) = [(n, Field n dt req mv)]"
| "allstructs_of (Group n mv req c) = (n, Group n mv req c) # allstructs c"
| "allstructs [] = []"
| "allstructs (s # ss) = allstructs_of s @ allstructs ss"

text \<open>\<open>Base.get_struct\<close>, struct.py lines 139 to 142.\<close>

definition get_struct :: "struct list \<Rightarrow> string \<Rightarrow> error + struct" where
  "get_struct base_content n =
     (case map_of (allstructs base_content) n of None \<Rightarrow> Inl KeyError | Some s \<Rightarrow> Inr s)"

fun multivalued :: "struct \<Rightarrow> bool" where
  "multivalued (Field n dt req mv) = mv"
| "multivalued (Group n mv req c) = mv"

fun struct_content :: "struct \<Rightarrow> struct list" where
  "struct_content (Field n dt req mv) = []"
| "struct_content (Group n mv req c) = c"

text \<open>
  \<open>isinstance(value, C)\<close> for a generated class \<open>C\<close>: an instance of a document class is
  an instance of that class only, and the wrapper of a field is an instance of the class
  cached under the field's name.
\<close>

fun isinstance :: "pyval \<Rightarrow> cls \<Rightarrow> bool" where
  "isinstance (PInst c slots) c' = (c = c')"
| "isinstance (PField n v) c' = (StructCls n = c')"
| "isinstance v c' = False"

text \<open>
  \<open>isinstance(value, list)\<close>, with the elements when it holds: a plain list, or the
  list subclass of a multivalued group.
\<close>

fun as_list :: "pyval \<Rightarrow> pyval list option" where
  "as_list (PList xs) = Some xs"
| "as_list (PMulti g xs) = Some xs"
| "as_list v = None"

text \<open>
  \<open>[f(element) for element in value]\<close> where \<open>f\<close> may raise: the first error ends the
  comprehension.
\<close>

fun map_result :: "('a \<Rightarrow> error + 'b) \<Rightarrow> 'a list \<Rightarrow> error + 'b list" where
  "map_result f [] = Inr []"
| "map_result f (x # xs) =
     (case f x of
        Inl e \<Rightarrow> Inl e
      | Inr y \<Rightarrow> (case map_result f xs of Inl e \<Rightarrow> Inl e | Inr ys \<Rightarrow> Inr (y # ys)))"

subsection \<open>\<open>FieldMetaClass\<close> (metaclass.py, lines 157 to 180)\<close>

text \<open>
  The datatype validators are outside the repository: \<open>V field\<close> stands for
  \<open>field._datatype.__schema__(base, field, 0)\<close>, a function that raises or returns the
  normalized value.

  \<open>__setattr__(self, obj, value)\<close> returns the new \<open>__value__\<close> of the wrapper, or the
  error raised, in which case the wrapper is left as it was. The attribute name \<open>obj\<close>
  is not looked at by the source. \<open>__init__\<close> is the assignment \<open>self.__value__ =
  value\<close>, which Python routes through \<open>__setattr__\<close>.
\<close>

type_synonym datatype_validator = "struct \<Rightarrow> pyval \<Rightarrow> error + pyval"

definition FieldMetaClass_setattr ::
  "datatype_validator \<Rightarrow> struct \<Rightarrow> string \<Rightarrow> pyval \<Rightarrow> error + pyval" where
  "FieldMetaClass_setattr V field obj value =
     (if multivalued field then
        (case as_list value of
           None \<Rightarrow> Inl (TypeMismatch (sname field))
         | Some xs \<Rightarrow>
             (case map_result (V field) xs of Inl e \<Rightarrow> Inl e | Inr ys \<Rightarrow> Inr (PList ys)))
      else V field value)"

definition FieldMetaClass_init :: "datatype_validator \<Rightarrow> struct \<Rightarrow> pyval \<Rightarrow> error + pyval" where
  "FieldMetaClass_init V field value =
     (case FieldMetaClass_setattr V field ''__value__'' value of
        Inl e \<Rightarrow> Inl e
      | Inr v \<Rightarrow> Inr (PField (sname field) v))"

subsection \<open>\<open>MultiGroupMetaClass\<close> (metaclass.py, lines 124 to 145)\<close>

text \<open>
  The list of a multivalued group \<open>g\<close> checks elements against the class cached under
  the group's name. Each method returns the error raised, if any, and the elements of
  the list afterwards.
\<close>

definition MultiGroupMetaClass_append ::
  "string \<Rightarrow> pyval list \<Rightarrow> pyval \<Rightarrow> error option \<times> pyval list" where
  "MultiGroupMetaClass_append g xs element =
     (if isinstance element (StructCls g) then (None, xs @ [element])
      else (Some (TypeMismatch g), xs))"

text \<open>\<open>list.__setitem__\<close> with an integer index: a negative index counts from the end.\<close>

definition list_setitem :: "pyval list \<Rightarrow> int \<Rightarrow> pyval \<Rightarrow> error option \<times> pyval list" where
  "list_setitem xs i element =
     (let n = int (length xs); j = (if i < 0 then n + i else i)
      in if 0 \<le> j \<and> j < n then (None, xs[nat j := element]) else (Some IndexError, xs))"

definition MultiGroupMetaClass_setitem ::
  "string \<Rightarrow> pyval list \<Rightarrow> int \<Rightarrow> pyval \<Rightarrow> error option \<times> pyval list" where
  "MultiGroupMetaClass_setitem g xs index element =
     (if isinstance element (StructCls g) then list_setitem xs index element
      else (Some (TypeMismatch g), xs))"

text \<open>
  \<open>value.append(element)\<close> on any value: the built-in method on a plain list, the
  checking method on the list of a multivalued group.
\<close>

fun py_append :: "pyval \<Rightarrow> pyval \<Rightarrow> error + pyval" where
  "py_append (PList xs) element = Inr (PList (xs @ [element]))"
| "py_append (PMulti g xs) element =
     (case MultiGroupMetaClass_append g xs element of
        (Some e, ys) \<Rightarrow> Inl e
      | (None, ys) \<Rightarrow> Inr (PMulti g ys))"
| "py_append v element = Inl (AttributeError ''append'')"

text \<open>
  A datatype validator used as a concrete input: a \<open>Text\<close> field accepts a string and
  normalizes it by dropping leading blanks, an \<open>Integer\<close> field accepts an integer, and
  every other value is rejected.
\<close>

fun ex_validator :: datatype_validator where
  "ex_validator (Field n dt req mv) (PStr s) =
     (if dt = ''Text'' then Inr (PStr (dropWhile (\<lambda>c. c = CHR '' '') s))
      else Inl (FieldValidationError n))"
| "ex_validator (Field n dt req mv) (PInt i) =
     (if dt = ''Integer'' then Inr (PInt i) else Inl (FieldValidationError n))"
| "ex_validator f v = Inl (FieldValidationError (sname f))"

subsection \<open>The property setters\<close>

text \<open>
  The name of the private attribute of a structure, \<open>'_' + structname\<close>.
\<close>

definition attr_of :: "string \<Rightarrow> string" where
  "attr_of structname = CHR ''_'' # structname"

text \<open>
  \<open>struct_metaclass(value)\<close> in the branch of a field: the class cached under the
  structure's name is called with one positional argument. The cached class is the one
  of the structure registered under that name: the wrapper class of a field, or the
  document class of a group, whose constructor takes keyword arguments only and so
  raises Python's \<open>TypeError\<close>.
\<close>

definition call_field_metaclass :: "datatype_validator \<Rightarrow> struct \<Rightarrow> pyval \<Rightarrow> error + pyval" where
  "call_field_metaclass V registered value =
     (if is_field registered then FieldMetaClass_init V registered value
      else Inl (PyTypeError (sname registered)))"

text \<open>
  \<open>generate_property.setter\<close>, metaclass.py lines 73 to 93. \<open>base_content\<close> is the
  content of the base, in which \<open>base.metaclass(structname)\<close> finds the cached class;
  \<open>slots\<close> are the attributes of the instance; the result is the error raised, or the
  attributes after \<open>setattr(self, attr_name, value)\<close>.
\<close>

definition generate_property_setter ::
  "datatype_validator \<Rightarrow> struct list \<Rightarrow> struct \<Rightarrow> pydict \<Rightarrow> pyval \<Rightarrow> error + pydict" where
  "generate_property_setter V base_content struct slots value =
     (case get_struct base_content (sname struct) of
        Inl e \<Rightarrow> Inl e
      | Inr registered \<Rightarrow>
          if is_field struct then
            (case call_field_metaclass V registered value of
               Inl e \<Rightarrow> Inl e
             | Inr w \<Rightarrow> Inr (AList.update (attr_of (sname struct)) w slots))
          else if multivalued struct then
            (case as_list value of
               None \<Rightarrow> Inl (TypeMismatch (sname struct))
             | Some xs \<Rightarrow>
                 if list_all (\<lambda>element. isinstance element (StructCls (sname struct))) xs
                 then Inr (AList.update (attr_of (sname struct)) (PMulti (sname struct) xs) slots)
                 else Inl (TypeMismatch (sname struct)))
          else if isinstance value (StructCls (sname struct))
               then Inr (AList.update (attr_of (sname struct)) value slots)
               else Inl (TypeMismatch (sname struct)))"

text \<open>
  \<open>Base._make_meta_prop.setter\<close>, struct.py lines 301 to 326: the same checks, with
  the class read from \<open>base.__metaclasses__[structname]\<close>; the value of a multivalued
  group is stored as it came.
\<close>

definition make_meta_prop_setter ::
  "datatype_validator \<Rightarrow> struct list \<Rightarrow> struct \<Rightarrow> pydict \<Rightarrow> pyval \<Rightarrow> error + pydict" where
  "make_meta_prop_setter V base_content struct slots value =
     (case get_struct base_content (sname struct) of
        Inl e \<Rightarrow> Inl e
      | Inr registered \<Rightarrow>
          if is_field struct then
            (case call_field_metaclass V registered value of
               Inl e \<Rightarrow> Inl e
             | Inr w \<Rightarrow> Inr (AList.update (attr_of (sname struct)) w slots))
          else if multivalued struct then
            (case as_list value of
               None \<Rightarrow> Inl (TypeMismatch (sname struct))
             | Some xs \<Rightarrow>
                 if list_all (\<lambda>element. isinstance element (StructCls (sname struct))) xs
                 then Inr (AList.update (attr_of (sname struct)) value slots)
                 else Inl (TypeMismatch (sname struct)))
          else if isinstance value (StructCls (sname struct))
               then Inr (AList.update (attr_of (sname struct)) value slots)
               else Inl (TypeMismatch (sname struct)))"

text \<open>
  The getter of both files (\<open>getattr(self, attr_name)\<close>, then \<open>__value__\<close> of it for a
  field): an unset attribute is Python's \<open>AttributeError\<close>, and so is \<open>__value__\<close> of a
  value that is no wrapper.
\<close>

definition property_getter :: "struct \<Rightarrow> pydict \<Rightarrow> error + pyval" where
  "property_getter struct slots =
     (case map_of slots (attr_of (sname struct)) of
        None \<Rightarrow> Inl (AttributeError (attr_of (sname struct)))
      | Some value \<Rightarrow>
          if is_field struct then
            (case value of
               PField n v \<Rightarrow> Inr v
             | _ \<Rightarrow> Inl (AttributeError ''__value__''))
          else Inr value)"

text \<open>
  The property that \<open>setattr(Class, structname, prop)\<close> leaves under a name: the loop
  over the content sets them in order, so the last structure with the name stays.
\<close>

definition find_property :: "struct list \<Rightarrow> string \<Rightarrow> struct option" where
  "find_property content arg = find (\<lambda>s. sname s = arg) (rev content)"

subsection \<open>The constructors\<close>

text \<open>
  The loop \<open>for arg in kwargs: ...\<close> of both constructors. \<open>assign\<close> is what the body
  does with one keyword argument; the loop ends at the first error. The result is the
  error raised, if any, and the attributes of the instance at that moment.
\<close>

fun init_loop ::
  "(pydict \<Rightarrow> string \<Rightarrow> pyval \<Rightarrow> error + pydict) \<Rightarrow> (string \<times> pyval) list \<Rightarrow> pydict \<Rightarrow>
   error option \<times> pydict" where
  "init_loop assign [] slots = (None, slots)"
| "init_loop assign ((arg, value) # kwargs) slots =
     (case assign slots arg value of
        Inl e \<Rightarrow> (Some e, slots)
      | Inr slots' \<Rightarrow> init_loop assign kwargs slots')"

text \<open>
  The names of \<open>a - b\<close>, for \<open>a = set(rnames)\<close> and \<open>b = set(kwargs.keys())\<close>.
\<close>

definition missing_required :: "string list \<Rightarrow> (string \<times> pyval) list \<Rightarrow> string list" where
  "missing_required required kwargs = filter (\<lambda>r. r \<notin> fst ` set kwargs) (remdups required)"

text \<open>
  \<open>BaseMetaClass.__init__\<close>, struct.py lines 251 to 266. The body of its loop: a name
  of \<open>snames\<close> is assigned through its property, any other name raises.
\<close>

definition BaseMetaClass_assign ::
  "datatype_validator \<Rightarrow> struct list \<Rightarrow> pydict \<Rightarrow> string \<Rightarrow> pyval \<Rightarrow> error + pydict" where
  "BaseMetaClass_assign V base_content slots arg value =
     (if arg \<in> set (snames base_content) then
        (case find_property base_content arg of
           None \<Rightarrow> Inl (AttributeError arg)
         | Some struct \<Rightarrow> make_meta_prop_setter V base_content struct slots value)
      else Inl (UnknownStructure arg))"

definition BaseMetaClass_init ::
  "datatype_validator \<Rightarrow> struct list \<Rightarrow> (string \<times> pyval) list \<Rightarrow> error option \<times> pydict" where
  "BaseMetaClass_init V base_content kwargs =
     (if length (missing_required (rnames base_content) kwargs) > 0
      then (Some (MissingRequiredStructure (missing_required (rnames base_content) kwargs)), [])
      else init_loop (BaseMetaClass_assign V base_content) kwargs [])"

text \<open>
  Modelled from the spec: \<open>lbutils.validate_required(rnames, kwargs)\<close> is not among the
  source files. It fails with \<open>MissingRequiredStructure\<close> if any name of the
  required-name set is absent from the input.
\<close>

definition validate_required :: "string list \<Rightarrow> (string \<times> pyval) list \<Rightarrow> error option" where
  "validate_required required kwargs =
     (if missing_required required kwargs = [] then None
      else Some (MissingRequiredStructure (missing_required required kwargs)))"

text \<open>
  A class made by \<open>generate_metaclass(struct, base)\<close>, metaclass.py lines 6 to 51: its
  identity, the content of \<open>struct\<close>, the content of the base in which classes are
  looked up, whether the metadata property was built (\<open>base is None\<close>), and the class
  attribute \<open>__valreq__\<close>, which the class body sets to \<open>True\<close>.
\<close>

record metaclass =
  mc_cls :: cls
  mc_content :: "struct list"
  mc_base :: "struct list"
  mc_build_metadata :: bool
  mc_valreq :: bool

definition generate_metaclass :: "cls \<Rightarrow> struct list \<Rightarrow> struct list option \<Rightarrow> metaclass" where
  "generate_metaclass c content base =
     \<lparr>mc_cls = c, mc_content = content,
      mc_base = (case base of None \<Rightarrow> content | Some b \<Rightarrow> b),
      mc_build_metadata = (base = None), mc_valreq = True\<rparr>"

text \<open>The names of \<open>__slots__\<close>, lines 33 to 35.\<close>

definition slot_names :: "metaclass \<Rightarrow> string list" where
  "slot_names mc =
     map attr_of (snames (mc_content mc))
       @ (if mc_build_metadata mc then [''__metadata__''] else [])"

text \<open>\<open>isinstance(value, DocumentMetadata)\<close>.\<close>

fun is_DocumentMetadata :: "pyval \<Rightarrow> bool" where
  "is_DocumentMetadata (PObj c d) = (c = ''DocumentMetadata'')"
| "is_DocumentMetadata v = False"

text \<open>
  \<open>setattr(self, arg, value)\<close> on an instance of such a class, which has \<open>__slots__\<close>
  and no \<open>__dict__\<close>: the metadata property (set last on the class) or the property
  of a structure runs its setter, a slot is written, and any other name is Python's
  \<open>AttributeError\<close>.
\<close>

definition MetaClass_setattr ::
  "datatype_validator \<Rightarrow> metaclass \<Rightarrow> pydict \<Rightarrow> string \<Rightarrow> pyval \<Rightarrow> error + pydict" where
  "MetaClass_setattr V mc slots arg value =
     (if mc_build_metadata mc \<and> arg = ''_metadata'' then
        (if is_DocumentMetadata value then Inr (AList.update ''__metadata__'' value slots)
         else Inl (TypeMismatch ''_metadata''))
      else
        (case find_property (mc_content mc) arg of
           Some struct \<Rightarrow> generate_property_setter V (mc_base mc) struct slots value
         | None \<Rightarrow>
             if arg \<in> set (slot_names mc) then Inr (AList.update arg value slots)
             else Inl (AttributeError arg)))"

text \<open>\<open>MetaClass.__init__\<close>, metaclass.py lines 37 to 43.\<close>

definition MetaClass_init ::
  "datatype_validator \<Rightarrow> metaclass \<Rightarrow> (string \<times> pyval) list \<Rightarrow> error option \<times> pydict" where
  "MetaClass_init V mc kwargs =
     (case (if mc_valreq mc then validate_required (rnames (mc_content mc)) kwargs else None) of
        Some e \<Rightarrow> (Some e, [])
      | None \<Rightarrow> init_loop (MetaClass_setattr V mc) kwargs [])"

text \<open>
  Calling a class with keyword arguments: the instance when \<open>__init__\<close> returns, the
  error when it raises.
\<close>

definition new_instance :: "cls \<Rightarrow> error option \<times> pydict \<Rightarrow> error + pyval" where
  "new_instance c r = (case r of (Some e, slots) \<Rightarrow> Inl e | (None, slots) \<Rightarrow> Inr (PInst c slots))"

section \<open>The compiled schema\<close>

text \<open>
  Modelled from the spec: the methods \<open>Field.schema\<close> and \<open>Group.schema\<close> and the
  validator library are not among the source files. A compiled validator is the
  datatype validator of a field, a dictionary of keys (plain or required) to
  validators, or the validator of a list whose every element validates independently.
  The schema of a field is its datatype validator, over a list when the field is
  multivalued; the schema of a group is the compilation of its nested content, built
  like the schema of the base, over a list when the group is multivalued.
\<close>

datatype validator =
    VField struct
  | VList validator
  | VDict "(skey \<times> validator) list"

lemma Base_schema_cong [fundef_cong]:
  "content = content' \<Longrightarrow> (\<And>s. s \<in> set content' \<Longrightarrow> f s = g s) \<Longrightarrow>
   Base_schema f content = Base_schema g content'"
  unfolding Base_schema_def by (rule fold_cong) auto

fun struct_schema :: "struct \<Rightarrow> validator" where
  "struct_schema (Field n dt req mv) =
     (if mv then VList (VField (Field n dt req mv)) else VField (Field n dt req mv))"
| "struct_schema (Group n mv req c) =
     (if mv then VList (VDict (Base_schema struct_schema c))
      else VDict (Base_schema struct_schema c))"

fun key_name :: "skey \<Rightarrow> string" where
  "key_name (Plain n) = n"
| "key_name (Required n) = n"

fun required_keys :: "(skey \<times> 'v) list \<Rightarrow> string list" where
  "required_keys [] = []"
| "required_keys ((Required n, w) # sch) = n # required_keys sch"
| "required_keys ((Plain n, w) # sch) = required_keys sch"

fun as_dict :: "pyval \<Rightarrow> pydict option" where
  "as_dict (PDict d) = Some d"
| "as_dict v = None"

text \<open>
  Modelled from the spec: applying a dictionary schema validates the value of every key
  of the data with the validator of that key; a key the schema does not have is an
  error, and so is a required key that the data does not have. \<open>look\<close> finds the
  validator of a key and applies it. The first error is the one reported.
\<close>

fun apply_items ::
  "(string \<Rightarrow> pyval \<Rightarrow> (error + pyval) option) \<Rightarrow> pydict \<Rightarrow> error + pydict" where
  "apply_items look [] = Inr []"
| "apply_items look ((k, x) # rest) =
     (case look k x of
        None \<Rightarrow> Inl (SchemaInvalid k)
      | Some (Inl e) \<Rightarrow> Inl e
      | Some (Inr y) \<Rightarrow>
          (case apply_items look rest of Inl e \<Rightarrow> Inl e | Inr ys \<Rightarrow> Inr ((k, y) # ys)))"

primrec apply_validator :: "datatype_validator \<Rightarrow> validator \<Rightarrow> pyval \<Rightarrow> error + pyval"
  and apply_entries ::
    "datatype_validator \<Rightarrow> (skey \<times> validator) list \<Rightarrow> string \<Rightarrow> pyval \<Rightarrow> (error + pyval) option"
  and apply_entry ::
    "datatype_validator \<Rightarrow> skey \<times> validator \<Rightarrow> string \<Rightarrow> pyval \<Rightarrow> (error + pyval) option"
  where
  "apply_validator V (VField field) v = V field v"
| "apply_validator V (VList w) v =
     (case as_list v of
        None \<Rightarrow> Inl (SchemaInvalid ''expected a list'')
      | Some xs \<Rightarrow>
          (case map_result (apply_validator V w) xs of
             Inl e \<Rightarrow> Inl e
           | Inr ys \<Rightarrow> Inr (PList ys)))"
| "apply_validator V (VDict sch) v =
     (case as_dict v of
        None \<Rightarrow> Inl (SchemaInvalid ''expected a dictionary'')
      | Some d \<Rightarrow>
          (case apply_items (apply_entries V sch) d of
             Inl e \<Rightarrow> Inl e
           | Inr d' \<Rightarrow>
               if missing_required (required_keys sch) d = [] then Inr (PDict d')
               else Inl (MissingRequiredStructure (missing_required (required_keys sch) d))))"
| "apply_entries V [] k x = None"
| "apply_entries V (entry # sch) k x =
     (case apply_entry V entry k x of
        Some r \<Rightarrow> Some r
      | None \<Rightarrow> apply_entries V sch k x)"
| "apply_entry V (key, w) k x =
     (if key_name key = k then Some (apply_validator V w x) else None)"

text \<open>
  \<open>self.schema(id)\<close> applied to the document at an address, as \<open>Base.validate\<close>
  uses it: the schema of the base content is applied to the dictionary at the address;
  the validated dictionary is a new object, which the store holds at the address
  \<open>result\<close> from then on. The validators are taken to leave the scratch entries alone.
\<close>

definition Base_schema_app ::
  "datatype_validator \<Rightarrow> struct list \<Rightarrow> nat \<Rightarrow> nat \<Rightarrow> base_state \<Rightarrow> (error + nat) \<times> base_state" where
  "Base_schema_app V content result document s =
     (case apply_validator V (VDict (Base_schema struct_schema content)) (PDict (heap s document)) of
        Inl e \<Rightarrow> (Inl e, s)
      | Inr v \<Rightarrow>
          (case as_dict v of
             None \<Rightarrow> (Inl (SchemaInvalid ''expected a dictionary''), s)
           | Some d \<Rightarrow> (Inr result, s\<lparr>heap := (heap s)(result := d)\<rparr>)))"

text \<open>
  A content with a multivalued group, the spec's second scenario, and an instance of the
  group's class.
\<close>

definition ex_tags_content :: "struct list" where
  "ex_tags_content = [Group ''tags'' True None [Field ''value'' ''Text'' False False]]"

definition ex_tags_group :: struct where
  "ex_tags_group = Group ''tags'' True None [Field ''value'' ''Text'' False False]"

definition ex_tag :: pyval where
  "ex_tag = PInst (StructCls ''tags'') [(''_value'', PField ''value'' (PStr ''a''))]"

text \<open>
  Keyword arguments used as a concrete input: a title, an instance of the author's
  class, and a name that is no structure; and the attributes that the first two leave.
\<close>

definition ex_kwargs_pre :: "(string \<times> pyval) list" where
  "ex_kwargs_pre = [(''title'', PStr '' X''), (''author'', PInst (StructCls ''author'') [])]"

definition ex_slots_pre :: pydict where
  "ex_slots_pre =
     [(''_title'', PField ''title'' (PStr ''X'')), (''_author'', PInst (StructCls ''author'') [])]"

section \<open>The document converter (lbbase/struct.py, lines 335 to 407)\<close>

text \<open>
  \<open>for element in value\<close>: the elements that iterating over a value yields (the keys of
  a dictionary, the characters of a string), or Python's \<open>TypeError\<close>.
\<close>

fun py_iter :: "pyval \<Rightarrow> error + pyval list" where
  "py_iter (PList xs) = Inr xs"
| "py_iter (PMulti g xs) = Inr xs"
| "py_iter (PDict d) = Inr (map (\<lambda>kv. PStr (fst kv)) d)"
| "py_iter (PStr s) = Inr (map (\<lambda>c. PStr [c]) s)"
| "py_iter v = Inl (PyTypeError ''not iterable'')"

text \<open>
  The content whose properties a generated class has: the content of the base for the
  class of \<open>Base.metaclass()\<close>, the content of the group registered under the name for a
  class of \<open>__metaclasses__\<close>.
\<close>

definition class_content :: "struct list \<Rightarrow> cls \<Rightarrow> struct list option" where
  "class_content base_content c =
     (case c of
        BaseCls \<Rightarrow> Some base_content
      | StructCls n \<Rightarrow>
          (case get_struct base_content n of
             Inl e \<Rightarrow> None
           | Inr s \<Rightarrow> if is_group s then Some (struct_content s) else None))"

text \<open>
  \<open>getattr(document, sname)\<close> for a structure name: on an instance of a generated class
  the property of that name runs its getter; any other value has no such attribute.
\<close>

fun py_getattr :: "struct list \<Rightarrow> pyval \<Rightarrow> string \<Rightarrow> error + pyval" where
  "py_getattr base_content (PInst c slots) n =
     (case class_content base_content c of
        None \<Rightarrow> Inl (AttributeError n)
      | Some content \<Rightarrow>
          (case find_property content n of
             None \<Rightarrow> Inl (AttributeError n)
           | Some s \<Rightarrow> property_getter s slots))"
| "py_getattr base_content v n = Inl (AttributeError n)"

lemma map_result_cong [fundef_cong]:
  "xs = ys \<Longrightarrow> (\<And>x. x \<in> set ys \<Longrightarrow> f x = g x) \<Longrightarrow> map_result f xs = map_result g ys"
  by (induction ys arbitrary: xs) (auto split: sum.splits)

lemma size_map_of:
  "map_of slots k = Some v \<Longrightarrow> size v < Suc (size_list (size_prod (\<lambda>_. 0) size) slots)"
  by (induction slots) (auto split: if_splits)

lemma size_snd_mem:
  "(k, v) \<in> set d \<Longrightarrow> size v < Suc (size_list (size_prod (\<lambda>_. 0) size) d)"
  by (induction d) auto

lemma py_getattr_size: "py_getattr bc document n = Inr v \<Longrightarrow> size v < size document"
  by (cases document)
    (auto simp: property_getter_def split: option.splits if_splits pyval.splits
      dest!: size_map_of)

lemma py_iter_size: "py_iter v = Inr xs \<Longrightarrow> x \<in> set xs \<Longrightarrow> size x \<le> size v"
  by (cases v) (auto intro: le_SucI size_list_estimation')

text \<open>
  The dictionary \<open>dictobj\<close> that the loop of \<open>document2dict\<close> fills: a name whose
  attribute is missing adds nothing.
\<close>

definition dict_of_entries :: "(string \<times> pyval) option list \<Rightarrow> pydict" where
  "dict_of_entries entries =
     fold (\<lambda>entry dictobj. case entry of None \<Rightarrow> dictobj | Some (k, w) \<Rightarrow> AList.update k w dictobj)
       entries []"

text \<open>\<open>except AttributeError: pass\<close>: every other error goes on.\<close>

fun skip_AttributeError :: "error \<Rightarrow> error + (string \<times> pyval) option" where
  "skip_AttributeError (AttributeError a) = Inr None"
| "skip_AttributeError e = Inl e"

text \<open>
  \<open>Base.document2dict\<close>, struct.py lines 374 to 407. The recursion is on the document,
  whose attribute values are parts of it.
\<close>

function document2dict :: "struct list \<Rightarrow> pyval \<Rightarrow> struct option \<Rightarrow> error + pyval" where
  "document2dict base_content document struct =
     (case map_result
        (\<lambda>n. case py_getattr base_content document n of
               Inl e \<Rightarrow> skip_AttributeError e
             | Inr v \<Rightarrow>
                 (case get_struct base_content n of
                    Inl e \<Rightarrow> Inl e
                  | Inr s \<Rightarrow>
                      if is_field s then Inr (Some (n, v))
                      else if multivalued s then
                        (case py_iter v of
                           Inl e \<Rightarrow> Inl e
                         | Inr xs \<Rightarrow>
                             (case map_result
                                (\<lambda>element. document2dict base_content element (Some s)) xs of
                                Inl e \<Rightarrow> Inl e
                              | Inr ys \<Rightarrow> Inr (Some (n, PList ys))))
                      else
                        (case document2dict base_content v (Some s) of
                           Inl e \<Rightarrow> Inl e
                         | Inr y \<Rightarrow> Inr (Some (n, y)))))
        (snames (case struct of None \<Rightarrow> base_content | Some s \<Rightarrow> struct_content s)) of
        Inl e \<Rightarrow> Inl e
      | Inr entries \<Rightarrow> Inr (PDict (dict_of_entries entries)))"
  by pat_completeness auto
termination
proof (relation "measure (\<lambda>(bc, document, struct). size document)")
  show "wf (measure (\<lambda>(bc, document, struct). size document))" by simp
next
  fix base_content document and struct :: "struct option" and x xa x2 xb xc x2a x2b xd
  assume "py_getattr base_content document x = Inr x2" "py_iter x2 = Inr x2b" "xd \<in> set x2b"
  then show "((base_content, xd, Some xb), base_content, document, struct)
       \<in> measure (\<lambda>(bc, document, struct). size document)"
    using py_getattr_size [of base_content document x x2] py_iter_size [of x2 x2b xd] by simp
next
  fix base_content document and struct :: "struct option" and x x2 xb
  assume "py_getattr base_content document x = Inr x2"
  then show "((base_content, x2, Some xb), base_content, document, struct)
       \<in> measure (\<lambda>(bc, document, struct). size document)"
    using py_getattr_size [of base_content document x x2] by simp
qed

declare document2dict.simps [simp del]

text \<open>
  Modelled from the spec: \<open>Group.metaclass(base, 0)\<close>, which fills \<open>__metaclasses__\<close>, is
  not among the source files; the generated type of a structure is
  \<open>generate_metaclass(structure, base)\<close>. \<open>Base.get_metaclass\<close>, struct.py lines 144
  to 152, reads the class cached under a name.
\<close>

definition get_metaclass :: "struct list \<Rightarrow> string \<Rightarrow> error + metaclass" where
  "get_metaclass base_content n =
     (case get_struct base_content n of
        Inl e \<Rightarrow> Inl KeyError
      | Inr s \<Rightarrow> Inr (generate_metaclass (StructCls n) (struct_content s) (Some base_content)))"

text \<open>
  \<open>metaclass(**kwargs)\<close>: without a class given, the class of \<open>self.metaclass()\<close>.
\<close>

definition call_metaclass ::
  "datatype_validator \<Rightarrow> struct list \<Rightarrow> metaclass option \<Rightarrow> (string \<times> pyval) list \<Rightarrow> error + pyval" where
  "call_metaclass V base_content mco kwargs =
     (case mco of
        None \<Rightarrow> new_instance BaseCls (BaseMetaClass_init V base_content kwargs)
      | Some mc \<Rightarrow> new_instance (mc_cls mc) (MetaClass_init V mc kwargs))"

text \<open>
  What the first pass of the loop raises when \<open>jsonobj\<close> is no dictionary: the member
  is looked up as a structure name, and \<open>jsonobj[member]\<close> cannot be read.
\<close>

fun nondict_member_error :: "struct list \<Rightarrow> pyval \<Rightarrow> error" where
  "nondict_member_error base_content (PStr k) =
     (case get_struct base_content k of Inl e \<Rightarrow> e | Inr s \<Rightarrow> PyTypeError ''indices'')"
| "nondict_member_error base_content (PList xs) = PyTypeError ''unhashable''"
| "nondict_member_error base_content (PMulti g xs) = PyTypeError ''unhashable''"
| "nondict_member_error base_content (PDict d) = PyTypeError ''unhashable''"
| "nondict_member_error base_content v = KeyError"

text \<open>
  \<open>Base.json2document\<close>, struct.py lines 335 to 372. The keys of \<open>jsonobj\<close> are
  distinct, so \<open>jsonobj[member]\<close> is the value paired with \<open>member\<close>, and \<open>kwargs\<close> has
  the members in their order.
\<close>

function (sequential) json2document ::
  "datatype_validator \<Rightarrow> struct list \<Rightarrow> pyval \<Rightarrow> metaclass option \<Rightarrow> error + pyval" where
  "json2document V base_content (PDict d) mco =
     (case map_result
        (\<lambda>(member, v).
           case get_struct base_content member of
             Inl e \<Rightarrow> Inl e
           | Inr s \<Rightarrow>
               if is_field s then Inr (member, v)
               else
                 (case get_metaclass base_content (sname s) of
                    Inl e \<Rightarrow> Inl e
                  | Inr mc \<Rightarrow>
                      if multivalued s then
                        (case py_iter v of
                           Inl e \<Rightarrow> Inl e
                         | Inr xs \<Rightarrow>
                             (case map_result
                                (\<lambda>element. json2document V base_content element (Some mc)) xs of
                                Inl e \<Rightarrow> Inl e
                              | Inr ys \<Rightarrow> Inr (member, PList ys)))
                      else
                        (case json2document V base_content v (Some mc) of
                           Inl e \<Rightarrow> Inl e
                         | Inr y \<Rightarrow> Inr (member, y))))
        d of
        Inl e \<Rightarrow> Inl e
      | Inr kwargs \<Rightarrow> call_metaclass V base_content mco kwargs)"
| "json2document V base_content jsonobj mco =
     (case py_iter jsonobj of
        Inl e \<Rightarrow> Inl e
      | Inr [] \<Rightarrow> call_metaclass V base_content mco []
      | Inr (member # rest) \<Rightarrow> Inl (nondict_member_error base_content member))"
  by pat_completeness auto
termination
  apply (relation "measure (\<lambda>(V, bc, jsonobj, mco). size jsonobj)")
   apply simp
  apply (auto dest!: size_snd_mem dest: py_iter_size)
  done

declare json2document.simps [simp del]

text \<open>
  The bodies of the two loops, by name: what \<open>json2document\<close> puts into \<open>kwargs\<close> for
  one member, and what \<open>document2dict\<close> puts into \<open>dictobj\<close> for one structure name.
\<close>

definition json_member ::
  "datatype_validator \<Rightarrow> struct list \<Rightarrow> string \<times> pyval \<Rightarrow> error + string \<times> pyval" where
  "json_member V base_content =
     (\<lambda>(member, v).
        case get_struct base_content member of
          Inl e \<Rightarrow> Inl e
        | Inr s \<Rightarrow>
            if is_field s then Inr (member, v)
            else
              (case get_metaclass base_content (sname s) of
                 Inl e \<Rightarrow> Inl e
               | Inr mc \<Rightarrow>
                   if multivalued s then
                     (case py_iter v of
                        Inl e \<Rightarrow> Inl e
                      | Inr xs \<Rightarrow>
                          (case map_result
                             (\<lambda>element. json2document V base_content element (Some mc)) xs of
                             Inl e \<Rightarrow> Inl e
                           | Inr ys \<Rightarrow> Inr (member, PList ys)))
                   else
                     (case json2document V base_content v (Some mc) of
                        Inl e \<Rightarrow> Inl e
                      | Inr y \<Rightarrow> Inr (member, y))))"

definition dict_entry :: "struct list \<Rightarrow> pyval \<Rightarrow> string \<Rightarrow> error + (string \<times> pyval) option" where
  "dict_entry base_content document n =
     (case py_getattr base_content document n of
        Inl e \<Rightarrow> skip_AttributeError e
      | Inr v \<Rightarrow>
          (case get_struct base_content n of
             Inl e \<Rightarrow> Inl e
           | Inr s \<Rightarrow>
               if is_field s then Inr (Some (n, v))
               else if multivalued s then
                 (case py_iter v of
                    Inl e \<Rightarrow> Inl e
                  | Inr xs \<Rightarrow>
                      (case map_result
                         (\<lambda>element. document2dict base_content element (Some s)) xs of
                         Inl e \<Rightarrow> Inl e
                       | Inr ys \<Rightarrow> Inr (Some (n, PList ys))))
               else
                 (case document2dict base_content v (Some s) of
                    Inl e \<Rightarrow> Inl e
                  | Inr y \<Rightarrow> Inr (Some (n, y)))))"

text \<open>
  Python's \<open>==\<close> on raw data: two dictionaries are equal when they have the same keys
  and equal values under each key, whatever the order; two lists when their elements
  are equal in order; values of other kinds when they are the same.
\<close>

function (sequential) py_eq :: "pyval \<Rightarrow> pyval \<Rightarrow> bool" where
  "py_eq (PDict xs) (PDict ys) =
     (fst ` set xs = fst ` set ys
      \<and> list_all (\<lambda>(k, v). case map_of ys k of None \<Rightarrow> False | Some w \<Rightarrow> py_eq v w) xs)"
| "py_eq (PList xs) (PList ys) = list_all2 py_eq xs ys"
| "py_eq a b = (a = b)"
  by pat_completeness auto
termination
  apply (relation "measure (\<lambda>(a, b). size a)")
    apply simp
   apply (auto dest!: size_snd_mem)
  apply (auto simp: less_Suc_eq_le intro: size_list_estimation')
  done

text \<open>
  A raw document as Python can hold it: the keys of every dictionary in it are
  distinct.
\<close>

function (sequential) wf_json :: "pyval \<Rightarrow> bool" where
  "wf_json (PDict d) = (distinct (map fst d) \<and> list_all (\<lambda>(k, v). wf_json v) d)"
| "wf_json (PList xs) = list_all wf_json xs"
| "wf_json v = True"
  by pat_completeness auto
termination
  apply (relation "measure size")
    apply simp
   apply (auto dest!: size_snd_mem)
  apply (auto simp: less_Suc_eq_le intro: size_list_estimation')
  done

section \<open>Notions for the round trip\<close>

text \<open>
  Concrete raw documents for the spec's first scenario, one whose title has a leading
  blank and one in normalized form, and the typed document of both.
\<close>

definition ex_doc :: pyval where
  "ex_doc = PDict [(''title'', PStr '' X''), (''author'', PDict [(''name'', PStr ''Y'')])]"

definition ex_doc_norm :: pydict where
  "ex_doc_norm = [(''title'', PStr ''X''), (''author'', PDict [(''name'', PStr ''Y'')])]"

definition ex_instance :: pyval where
  "ex_instance = PInst BaseCls [(''_title'', PField ''title'' (PStr ''X'')),
     (''_author'', PInst (StructCls ''author'') [(''_name'', PField ''name'' (PStr ''Y''))])]"

text \<open>
  A base in which the name \<open>name\<close> is used on two branches, for a text at the root and
  for an integer inside the group \<open>author\<close>, and a raw document for it.
\<close>

definition ex_clash_content :: "struct list" where
  "ex_clash_content =
     [Field ''name'' ''Text'' False False,
      Group ''author'' False None [Field ''name'' ''Integer'' False False]]"

definition ex_clash_doc :: pyval where
  "ex_clash_doc = PDict [(''name'', PStr ''A''), (''author'', PDict [(''name'', PInt 5)])]"

text \<open>
  A content of the tree of a base: the content of the base itself, or that of a group
  registered in it.
\<close>

definition tree_content :: "struct list \<Rightarrow> struct list \<Rightarrow> bool" where
  "tree_content bc c = (c = bc \<or> (\<exists>n mv req. (n, Group n mv req c) \<in> set (allstructs bc)))"

text \<open>
  How a content, its generated class, the class argument of \<open>json2document\<close> and the
  structure argument of \<open>document2dict\<close> belong together: at the root, or for a group
  registered in the base.
\<close>

definition link ::
  "struct list \<Rightarrow> struct list \<Rightarrow> metaclass option \<Rightarrow> struct option \<Rightarrow> cls \<Rightarrow> bool" where
  "link bc c mco so cl =
     ((mco = None \<and> so = None \<and> c = bc \<and> cl = BaseCls)
      \<or> (\<exists>n mv req. (n, Group n mv req c) \<in> set (allstructs bc)
            \<and> mco = Some (generate_metaclass (StructCls n) c (Some bc))
            \<and> so = Some (Group n mv req c) \<and> cl = StructCls n))"

text \<open>What the constructor of the class does with one keyword argument.\<close>

definition assign_of ::
  "datatype_validator \<Rightarrow> struct list \<Rightarrow> metaclass option \<Rightarrow> pydict \<Rightarrow> string \<Rightarrow> pyval \<Rightarrow> error + pydict" where
  "assign_of V bc mco =
     (case mco of None \<Rightarrow> BaseMetaClass_assign V bc | Some mc \<Rightarrow> MetaClass_setattr V mc)"

text \<open>
  The round trip of one raw value through a class: it converts to an instance of the
  class, which converts back to a dictionary equal to the value.
\<close>

definition RT ::
  "datatype_validator \<Rightarrow> struct list \<Rightarrow> pyval \<Rightarrow> metaclass option \<Rightarrow> struct option \<Rightarrow> cls \<Rightarrow> bool" where
  "RT V bc x mco so cl =
     (\<exists>slots out. json2document V bc x mco = Inr (PInst cl slots)
        \<and> document2dict bc (PInst cl slots) so = Inr (PDict out)
        \<and> py_eq (PDict out) x)"

text \<open>
  The round trip of one member of a raw dictionary: what \<open>json2document\<close> passes to the
  constructor for it, what the constructor stores, and what \<open>document2dict\<close> returns
  for the stored value.
\<close>

definition item_ok ::
  "datatype_validator \<Rightarrow> struct list \<Rightarrow> metaclass option \<Rightarrow> cls \<Rightarrow> struct \<Rightarrow> pyval \<Rightarrow> bool" where
  "item_ok V bc mco cl s x =
     (\<exists>y st w. json_member V bc (sname s, x) = Inr (sname s, y)
        \<and> (\<forall>slots. assign_of V bc mco slots (sname s) y
                     = Inr (AList.update (attr_of (sname s)) st slots))
        \<and> (\<forall>slots. map_of slots (attr_of (sname s)) = Some st \<longrightarrow>
               dict_entry bc (PInst cl slots) (sname s) = Inr (Some (sname s, w)))
        \<and> py_eq w x)"

section \<open>Properties of \<open>Base.validate\<close>\<close>

text \<open>
  C1. When applying the compiled schema to the document fails with a cause \<open>e\<close>,
  \<open>Base.validate\<close> deletes the entries of the document id from \<open>__files__\<close> and from
  \<open>__reldata__\<close> and raises the \<open>DocumentValidationError\<close> carrying \<open>e\<close>; afterwards
  neither dictionary has an entry for the id. The validators are outside the
  repository: they are assumed to leave the two entries that \<open>validate\<close> created in
  place.
\<close>

theorem validate_failure_rollback:
  assumes "schema_app document (validate_prepare s document meta) = (Inl e, s')"
    and "files s' (id_doc meta) = Some fs"
    and "reldata s' (id_doc meta) = Some rd"
  shows "fst (validate schema_app s document meta) = Inl (DocumentValidationError e)
       \<and> files (snd (validate schema_app s document meta)) (id_doc meta) = None
       \<and> reldata (snd (validate schema_app s document meta)) (id_doc meta) = None"
  using assms by (simp add: validate_def validate_rollback_def)

theorem validate_failure_rollback_witness:
  "ex_reject 0 (validate_prepare ex_state 0 ex_meta) =
     (Inl (SchemaInvalid ''title''), validate_prepare ex_state 0 ex_meta)
   \<and> files (validate_prepare ex_state 0 ex_meta) (id_doc ex_meta) = Some []
   \<and> reldata (validate_prepare ex_state 0 ex_meta) (id_doc ex_meta) = Some []
   \<and> fst (validate ex_reject ex_state 0 ex_meta)
       = Inl (DocumentValidationError (SchemaInvalid ''title''))
   \<and> files (snd (validate ex_reject ex_state 0 ex_meta)) 7 = None
   \<and> reldata (snd (validate ex_reject ex_state 0 ex_meta)) 7 = None"
proof -
  have a: "ex_reject 0 (validate_prepare ex_state 0 ex_meta) =
     (Inl (SchemaInvalid ''title''), validate_prepare ex_state 0 ex_meta)"
    by (simp add: ex_reject_def)
  have b: "files (validate_prepare ex_state 0 ex_meta) (id_doc ex_meta) = Some []"
    by (simp add: validate_prepare_def Let_def)
  have c: "reldata (validate_prepare ex_state 0 ex_meta) (id_doc ex_meta) = Some []"
    by (simp add: validate_prepare_def Let_def)
  have d: "id_doc ex_meta = 7" by (simp add: ex_meta_def)
  show ?thesis using validate_failure_rollback [of ex_reject 0 ex_state ex_meta, OF a b c] a b c d by simp
qed

text \<open>
  C5. When applying the compiled schema succeeds, \<open>Base.validate\<close> returns the
  4-tuple of the validated document, the relational map stored under the document id,
  the file list stored under the document id, and an empty warnings list; and the
  validated document then holds the metadata under the key \<open>_metadata\<close>. The entries
  under the id are the ones the validators, which are outside the repository, left.
\<close>

theorem validate_success_tuple:
  assumes "schema_app document (validate_prepare s document meta) = (Inr d, s')"
    and "reldata s' (id_doc meta) = Some rd"
    and "files s' (id_doc meta) = Some fs"
  shows "fst (validate schema_app s document meta) = Inr (d, rd, fs, [])
       \<and> heap (snd (validate schema_app s document meta)) d
           = AList.update ''_metadata'' (PDict (attrs meta)) (heap s' d)
       \<and> map_of (heap (snd (validate schema_app s document meta)) d) ''_metadata''
           = Some (PDict (attrs meta))
       \<and> reldata (snd (validate schema_app s document meta)) (id_doc meta) = Some rd
       \<and> files (snd (validate schema_app s document meta)) (id_doc meta) = Some fs"
  using assms by (simp add: validate_def Let_def update_conv')

theorem validate_success_tuple_witness:
  "ex_copy 0 (validate_prepare ex_state 0 ex_meta)
     = (Inr 1, (validate_prepare ex_state 0 ex_meta)
          \<lparr>heap := (heap (validate_prepare ex_state 0 ex_meta))
             (1 := heap (validate_prepare ex_state 0 ex_meta) 0)\<rparr>)
   \<and> fst (validate ex_copy ex_state 0 ex_meta) = Inr (1, [], [], [])
   \<and> heap (snd (validate ex_copy ex_state 0 ex_meta)) 1
       = [(''title'', PStr ''X''), (''_metadata'', PDict [(''id_doc'', PInt 7)])]"
proof -
  let ?p = "validate_prepare ex_state 0 ex_meta"
  let ?s' = "?p\<lparr>heap := (heap ?p)(1 := heap ?p 0)\<rparr>"
  have a: "ex_copy 0 ?p = (Inr 1, ?s')"
    by (simp add: ex_copy_def)
  have b: "reldata ?s' (id_doc ex_meta) = Some []"
    by (simp add: validate_prepare_def Let_def)
  have c: "files ?s' (id_doc ex_meta) = Some []"
    by (simp add: validate_prepare_def Let_def)
  have h: "heap ?s' 1 = [(''title'', PStr ''X'')]"
    by (simp add: validate_prepare_def Let_def ex_state_def)
  have m: "attrs ex_meta = [(''id_doc'', PInt 7)]" by (simp add: ex_meta_def)
  show ?thesis using validate_success_tuple [of ex_copy 0 ex_state ex_meta, OF a b c] a h m by simp
qed

text \<open>
  C9, as stated, fails: \<open>document = _schema(document)\<close> rebinds the local name, and
  the key \<open>_metadata\<close> is then written to the dictionary the schema returned. With a
  schema that returns a copy, validation succeeds and the caller's mapping (address 0)
  is left without the key.
\<close>

theorem validate_reattach_same_mapping_counterexample:
  "fst (validate ex_copy ex_state 0 ex_meta) = Inr (1, [], [], [])
   \<and> map_of (heap ex_state 0) ''_metadata'' = Some (PInt 1)
   \<and> map_of (heap (snd (validate ex_copy ex_state 0 ex_meta)) 0) ''_metadata'' = None"
  by (simp add: validate_def validate_prepare_def ex_copy_def ex_state_def ex_meta_def Let_def)

text \<open>
  C9, amended. \<open>Base.validate\<close> removes the key \<open>_metadata\<close> from the caller's mapping
  before the schema is applied. When the schema itself leaves the caller's mapping as
  it is, the removal is still there after a failure; after a success the key
  \<open>_metadata\<close> is set, to the attribute dictionary of the metadata object, in the
  mapping that the schema returned, and the caller's mapping, when it is another
  object, still lacks the key.
\<close>

theorem validate_metadata_in_place:
  assumes "schema_app document (validate_prepare s document meta) = (r, s')"
    and "heap s' document = heap (validate_prepare s document meta) document"
  shows "heap (validate_prepare s document meta) document
           = AList.delete ''_metadata'' (heap s document)
       \<and> map_of (heap (validate_prepare s document meta) document) ''_metadata'' = None
       \<and> (case r of
            Inl e \<Rightarrow> heap (snd (validate schema_app s document meta)) document
                       = AList.delete ''_metadata'' (heap s document)
          | Inr d \<Rightarrow> heap (snd (validate schema_app s document meta)) d
                       = AList.update ''_metadata'' (PDict (attrs meta)) (heap s' d)
                   \<and> map_of (heap (snd (validate schema_app s document meta)) d) ''_metadata''
                       = Some (PDict (attrs meta))
                   \<and> (d \<noteq> document \<longrightarrow>
                        heap (snd (validate schema_app s document meta)) document
                          = AList.delete ''_metadata'' (heap s document)))"
proof -
  have p: "heap (validate_prepare s document meta) document
             = AList.delete ''_metadata'' (heap s document)"
    by (simp add: validate_prepare_def Let_def)
  have q: "map_of (heap (validate_prepare s document meta) document) ''_metadata'' = None"
    by (simp add: p delete_conv')
  have "heap (snd (validate schema_app s document meta)) document
          = AList.delete ''_metadata'' (heap s document)" if "r = Inl e" for e
    using that assms p
    by (simp add: validate_def validate_rollback_def Let_def split: option.splits)
  moreover have "heap (snd (validate schema_app s document meta)) d
                   = AList.update ''_metadata'' (PDict (attrs meta)) (heap s' d)
               \<and> (d \<noteq> document \<longrightarrow>
                     heap (snd (validate schema_app s document meta)) document
                       = AList.delete ''_metadata'' (heap s document))" if "r = Inr d" for d
    using that assms p
    by (simp add: validate_def Let_def split: option.splits)
  ultimately show ?thesis using p q
    by (simp add: update_conv' split: sum.splits)
qed

theorem validate_metadata_in_place_witness:
  "heap (validate_prepare ex_state 0 ex_meta) 0 = [(''title'', PStr ''X'')]
   \<and> heap (snd (validate ex_copy ex_state 0 ex_meta)) 1
       = [(''title'', PStr ''X''), (''_metadata'', PDict [(''id_doc'', PInt 7)])]
   \<and> heap (snd (validate ex_copy ex_state 0 ex_meta)) 0 = [(''title'', PStr ''X'')]
   \<and> heap (snd (validate ex_reject ex_state 0 ex_meta)) 0 = [(''title'', PStr ''X'')]"
proof -
  let ?p = "validate_prepare ex_state 0 ex_meta"
  let ?s' = "?p\<lparr>heap := (heap ?p)(1 := heap ?p 0)\<rparr>"
  have a: "ex_copy 0 ?p = (Inr 1, ?s')"
    by (simp add: ex_copy_def)
  have b: "heap ?s' 0 = heap ?p 0" by simp
  have a': "ex_reject 0 ?p = (Inl (SchemaInvalid ''title''), ?p)"
    by (simp add: ex_reject_def)
  have h0: "heap ex_state 0 = [(''_metadata'', PInt 1), (''title'', PStr ''X'')]"
    by (simp add: ex_state_def)
  have h: "heap ?s' 1 = AList.delete ''_metadata'' (heap ex_state 0)"
    by (simp add: validate_prepare_def Let_def)
  have m: "attrs ex_meta = [(''id_doc'', PInt 7)]" by (simp add: ex_meta_def)
  show ?thesis
    using validate_metadata_in_place [of ex_copy 0 ex_state ex_meta "Inr 1" ?s', OF a b]
      validate_metadata_in_place [of ex_reject 0 ex_state ex_meta "Inl (SchemaInvalid ''title'')" ?p, OF a']
      h h0 m
    by simp
qed

section \<open>Properties of \<open>Base.schema\<close>\<close>

lemma keys_fold_update:
  "fst ` set (fold (\<lambda>x acc. AList.update (k x) (v x) acc) xs acc0)
     = fst ` set acc0 \<union> k ` set xs"
  by (induction xs arbitrary: acc0) (auto simp: dom_update)

lemma map_of_fold_update_notin:
  "key \<notin> k ` set xs \<Longrightarrow>
   map_of (fold (\<lambda>x acc. AList.update (k x) (v x) acc) xs acc0) key = map_of acc0 key"
  by (induction xs arbitrary: acc0) (auto simp: update_conv')

lemma map_of_fold_update_in:
  "inj_on k (set xs) \<Longrightarrow> x \<in> set xs \<Longrightarrow>
   map_of (fold (\<lambda>x acc. AList.update (k x) (v x) acc) xs acc0) (k x) = Some (v x)"
proof (induction xs arbitrary: acc0)
  case Nil
  then show ?case by simp
next
  case (Cons a xs)
  show ?case
  proof (cases "x \<in> set xs")
    case True
    with Cons show ?thesis by (simp add: inj_on_def)
  next
    case False
    with Cons.prems have xa: "x = a" by simp
    have "k a \<notin> k ` set xs" using Cons.prems False xa by (auto simp: inj_on_def)
    then show ?thesis using xa by (simp add: map_of_fold_update_notin update_conv')
  qed
qed

lemma schema_key_Required:
  "(schema_key t = Required n) = (struct_required t \<and> sname t = n)"
  by (simp add: schema_key_def)

lemma schema_key_Plain:
  "(schema_key t = Plain n) = (\<not> struct_required t \<and> sname t = n)"
  by (simp add: schema_key_def)

lemma inj_schema_key: "distinct (map sname content) \<Longrightarrow> inj_on schema_key (set content)"
  by (auto simp: inj_on_def distinct_map schema_key_def split: if_splits)

lemma Base_schema_keys:
  assumes "distinct (map sname content)" and "s \<in> set content"
  shows "(Required (sname s) \<in> fst ` set (Base_schema f content)) = struct_required s"
    and "(Plain (sname s) \<in> fst ` set (Base_schema f content)) = (\<not> struct_required s)"
    and "map_of (Base_schema f content) (schema_key s) = Some (f s)"
proof -
  have inj: "inj_on sname (set content)" using assms(1) by (simp add: distinct_map)
  show "(Required (sname s) \<in> fst ` set (Base_schema f content)) = struct_required s"
    using assms(2) inj
    by (auto simp: Base_schema_def keys_fold_update image_iff schema_key_Required
        eq_commute[of "Required _"] inj_on_def)
  show "(Plain (sname s) \<in> fst ` set (Base_schema f content)) = (\<not> struct_required s)"
    using assms(2) inj
    by (auto simp: Base_schema_def keys_fold_update image_iff schema_key_Plain
        eq_commute[of "Plain _"] inj_on_def)
  show "map_of (Base_schema f content) (schema_key s) = Some (f s)"
    unfolding Base_schema_def
    by (rule map_of_fold_update_in[OF inj_schema_key[OF assms(1)] assms(2)])
qed

lemma lbbase_schema_key_eq: "lbbase_schema_key a = Inr k \<Longrightarrow> k = attr_key a"
proof (cases "attr_required a")
  case None
  assume "lbbase_schema_key a = Inr k"
  with None show ?thesis
    by (simp add: lbbase_schema_key_def attr_key_def attr_flag_def)
next
  case (Some r)
  assume "lbbase_schema_key a = Inr k"
  with Some show ?thesis
    by (cases r)
      (auto simp: lbbase_schema_key_def attr_key_def attr_flag_def
        split: if_splits option.splits sum.splits)
qed

lemma lbbase_loop_fold:
  "lbbase_Base_schema_loop as acc = Inr sch \<Longrightarrow>
   sch = fold (\<lambda>a acc. AList.update (attr_key a) (attr_schema a) acc) as acc"
  by (induction as arbitrary: acc) (auto split: sum.splits dest: lbbase_schema_key_eq)

lemma lbbase_Base_schema_keys:
  assumes "distinct (map attr_name as)" and "a \<in> set as"
    and "lbbase_Base_schema as = Inr sch"
  shows "(Required (attr_name a) \<in> fst ` set sch) = attr_flag a"
    and "(Plain (attr_name a) \<in> fst ` set sch) = (\<not> attr_flag a)"
proof -
  have inj: "inj_on attr_name (set as)" using assms(1) by (simp add: distinct_map)
  have sch: "sch = fold (\<lambda>a acc. AList.update (attr_key a) (attr_schema a) acc) as []"
    using assms(3) lbbase_loop_fold by (simp add: lbbase_Base_schema_def)
  show "(Required (attr_name a) \<in> fst ` set sch) = attr_flag a"
    using assms(2) inj unfolding sch
    by (auto simp: keys_fold_update image_iff attr_key_def inj_on_def split: if_splits)
  show "(Plain (attr_name a) \<in> fst ` set sch) = (\<not> attr_flag a)"
    using assms(2) inj unfolding sch
    by (auto simp: keys_fold_update image_iff attr_key_def inj_on_def split: if_splits)
qed

text \<open>
  C6. For every structure of a content (whose names are distinct, as a content's are),
  the schema that \<open>Base.schema\<close> of lbbase/struct.py builds has the structure's name
  under the \<open>Required\<close> marker if and only if the structure's required flag is true (a
  field's flag, or the group-level flag of a group), has the plain name otherwise, and
  maps that key to the structure's own schema. The same holds for \<open>Base.schema\<close> of
  lbbase/__init__.py, where the flag is \<open>attr.required.required\<close>.
\<close>

theorem schema_required_iff:
  "(distinct (map sname content) \<and> s \<in> set content \<longrightarrow>
      (Required (sname s) \<in> fst ` set (Base_schema f content)) = struct_required s
    \<and> (Plain (sname s) \<in> fst ` set (Base_schema f content)) = (\<not> struct_required s)
    \<and> map_of (Base_schema f content) (schema_key s) = Some (f s))
   \<and> (distinct (map attr_name as) \<and> a \<in> set as \<and> lbbase_Base_schema as = Inr sch \<longrightarrow>
      (Required (attr_name a) \<in> fst ` set sch) = attr_flag a
    \<and> (Plain (attr_name a) \<in> fst ` set sch) = (\<not> attr_flag a))"
  using Base_schema_keys [of content s f] lbbase_Base_schema_keys [of as a sch]
  by blast

theorem schema_required_iff_witness:
  "distinct (map sname ex_content)
   \<and> Field ''title'' ''Text'' True False \<in> set ex_content
   \<and> Base_schema sname ex_content
       = [(Required ''title'', ''title''), (Required ''author'', ''author'')]
   \<and> Required ''title'' \<in> fst ` set (Base_schema sname ex_content)
   \<and> Plain ''title'' \<notin> fst ` set (Base_schema sname ex_content)
   \<and> distinct (map attr_name ex_attrs)
   \<and> lbbase_Base_schema ex_attrs
       = Inr [(Required ''title'', 1), (Plain ''tags'', 2), (Plain ''author'', 3)]
   \<and> attr_flag (ex_attrs ! 0) \<and> \<not> attr_flag (ex_attrs ! 1) \<and> \<not> attr_flag (ex_attrs ! 2)
   \<and> Required ''title'' \<in> fst ` set [(Required ''title'', 1::nat), (Plain ''tags'', 2), (Plain ''author'', 3)]"
proof -
  let ?s = "Field ''title'' ''Text'' True False"
  let ?sch = "[(Required ''title'', 1::nat), (Plain ''tags'', 2), (Plain ''author'', 3)]"
  have d: "distinct (map sname ex_content)" and m: "?s \<in> set ex_content"
    by (simp_all add: ex_content_def)
  have b: "Base_schema sname ex_content
             = [(Required ''title'', ''title''), (Required ''author'', ''author'')]"
    by (simp add: Base_schema_def ex_content_def schema_key_def)
  have d': "distinct (map attr_name ex_attrs)" and m': "ex_attrs ! 0 \<in> set ex_attrs"
    by (simp_all add: ex_attrs_def)
  have l: "lbbase_Base_schema ex_attrs = Inr ?sch"
    by (simp add: lbbase_Base_schema_def ex_attrs_def lbbase_schema_key_def)
  have fl: "attr_flag (ex_attrs ! 0)" "\<not> attr_flag (ex_attrs ! 1)" "\<not> attr_flag (ex_attrs ! 2)"
    by (simp_all add: ex_attrs_def attr_flag_def)
  have n: "attr_name (ex_attrs ! 0) = ''title''" by (simp add: ex_attrs_def)
  show ?thesis
    using schema_required_iff [of ex_content ?s sname ex_attrs "ex_attrs ! 0" ?sch]
      d m b d' m' l fl n
    by simp
qed

section \<open>Properties of the field wrapper and of the list of a multivalued group\<close>

lemma map_result_Inr_iff:
  "(map_result f xs = Inr ys) = list_all2 (\<lambda>x y. f x = Inr y) xs ys"
proof (induction xs arbitrary: ys)
  case Nil
  show ?case by auto
next
  case (Cons x xs)
  show ?case
    by (auto simp: list_all2_Cons1 Cons.IH[symmetric] split: sum.splits)
qed

lemma map_result_Inl_iff:
  "(\<exists>e. map_result f xs = Inl e) = (\<exists>x\<in>set xs. \<exists>e. f x = Inl e)"
  by (induction xs) (auto split: sum.splits)

text \<open>
  C7. Construction of a field's wrapper and every assignment to it, under whatever
  attribute name, go through the field's datatype validator. For a single-valued field
  the outcome is the validator's outcome on the value. For a multivalued field a value
  that is not a list is a \<open>TypeMismatch\<close>; a list is stored as the list of the
  validator's results, element by element, and the assignment fails exactly when the
  validator rejects some element. So an assignment either raises or stores what the
  validator returned: it is never silently skipped.
\<close>

theorem field_wrapper_validates:
  "FieldMetaClass_setattr V field obj value = FieldMetaClass_setattr V field ''__value__'' value
   \<and> (\<not> multivalued field \<longrightarrow>
        FieldMetaClass_setattr V field obj value = V field value)
   \<and> (multivalued field \<and> as_list value = None \<longrightarrow>
        FieldMetaClass_setattr V field obj value = Inl (TypeMismatch (sname field)))
   \<and> (multivalued field \<and> as_list value = Some xs \<longrightarrow>
        (\<forall>w. FieldMetaClass_setattr V field obj value = Inr w
              = (\<exists>ys. w = PList ys \<and> list_all2 (\<lambda>x y. V field x = Inr y) xs ys))
        \<and> ((\<exists>e. FieldMetaClass_setattr V field obj value = Inl e)
              = (\<exists>x\<in>set xs. \<exists>e. V field x = Inl e)))
   \<and> (\<forall>e. FieldMetaClass_init V field value = Inl e
             = (FieldMetaClass_setattr V field obj value = Inl e))
   \<and> (\<forall>w. FieldMetaClass_init V field value = Inr w
             = (\<exists>v. FieldMetaClass_setattr V field obj value = Inr v \<and> w = PField (sname field) v))"
proof -
  have a: "FieldMetaClass_setattr V field obj value
             = FieldMetaClass_setattr V field ''__value__'' value"
    by (simp add: FieldMetaClass_setattr_def)
  have d1: "FieldMetaClass_setattr V field obj value = Inr w
              = (\<exists>ys. w = PList ys \<and> list_all2 (\<lambda>x y. V field x = Inr y) xs ys)"
    if "multivalued field" "as_list value = Some xs" for w
    using that
    by (auto simp: FieldMetaClass_setattr_def map_result_Inr_iff[symmetric] split: sum.splits)
  have d2: "(\<exists>e. FieldMetaClass_setattr V field obj value = Inl e)
              = (\<exists>x\<in>set xs. \<exists>e. V field x = Inl e)"
    if "multivalued field" "as_list value = Some xs"
    using that map_result_Inl_iff [of "V field" xs]
    by (auto simp: FieldMetaClass_setattr_def split: sum.splits)
  have i1: "FieldMetaClass_init V field value = Inl e
             = (FieldMetaClass_setattr V field obj value = Inl e)" for e
    by (auto simp: FieldMetaClass_init_def FieldMetaClass_setattr_def split: sum.splits)
  have i2: "FieldMetaClass_init V field value = Inr w
             = (\<exists>v. FieldMetaClass_setattr V field obj value = Inr v
                    \<and> w = PField (sname field) v)" for w
    by (auto simp: FieldMetaClass_init_def FieldMetaClass_setattr_def split: sum.splits)
  show ?thesis
    using a d1 d2 i1 i2 by (simp add: FieldMetaClass_setattr_def)
qed

theorem field_wrapper_validates_witness:
  "multivalued (Field ''tags'' ''Text'' False True)
   \<and> as_list (PList [PStr '' a'', PStr ''b'']) = Some [PStr '' a'', PStr ''b'']
   \<and> FieldMetaClass_setattr ex_validator (Field ''tags'' ''Text'' False True) ''other''
        (PList [PStr '' a'', PStr ''b'']) = Inr (PList [PStr ''a'', PStr ''b''])
   \<and> FieldMetaClass_init ex_validator (Field ''tags'' ''Text'' False True)
        (PList [PStr '' a'', PStr ''b'']) = Inr (PField ''tags'' (PList [PStr ''a'', PStr ''b'']))
   \<and> as_list (PStr ''a'') = None
   \<and> FieldMetaClass_setattr ex_validator (Field ''tags'' ''Text'' False True) ''other''
        (PStr ''a'') = Inl (TypeMismatch ''tags'')"
proof -
  let ?f = "Field ''tags'' ''Text'' False True"
  let ?v = "PList [PStr '' a'', PStr ''b'']"
  have m: "multivalued ?f" by simp
  have l: "as_list ?v = Some [PStr '' a'', PStr ''b'']" by simp
  have n: "as_list (PStr ''a'') = None" by simp
  have v: "list_all2 (\<lambda>x y. ex_validator ?f x = Inr y)
             [PStr '' a'', PStr ''b''] [PStr ''a'', PStr ''b'']" by simp
  note t1 = field_wrapper_validates
    [of ex_validator ?f "''other''" ?v "[PStr '' a'', PStr ''b'']"]
  note t2 = field_wrapper_validates [of ex_validator ?f "''other''" "PStr ''a''" "[]"]
  note c4 = t1 [THEN conjunct2, THEN conjunct2, THEN conjunct2, THEN conjunct1,
      THEN mp, OF conjI [OF m l], THEN conjunct1, THEN spec]
  note c6 = t1 [THEN conjunct2, THEN conjunct2, THEN conjunct2, THEN conjunct2,
      THEN conjunct2, THEN spec]
  note c3 = t2 [THEN conjunct2, THEN conjunct2, THEN conjunct1, THEN mp, OF conjI [OF m n]]
  have r1: "FieldMetaClass_setattr ex_validator ?f ''other'' ?v
              = Inr (PList [PStr ''a'', PStr ''b''])"
    by (rule iffD2 [OF c4]) (rule exI [of _ "[PStr ''a'', PStr ''b'']"], rule conjI [OF refl v])
  have r2: "FieldMetaClass_init ex_validator ?f ?v
              = Inr (PField ''tags'' (PList [PStr ''a'', PStr ''b'']))"
    by (rule iffD2 [OF c6]) (rule exI [of _ "PList [PStr ''a'', PStr ''b'']"], simp add: r1)
  have r3: "FieldMetaClass_setattr ex_validator ?f ''other'' (PStr ''a'')
              = Inl (TypeMismatch ''tags'')"
    using c3 by simp
  show ?thesis by (intro conjI m l n r1 r2 r3)
qed

text \<open>
  C8. Calling \<open>append\<close> on the list of a multivalued group with an element that is not
  an instance of the group's generated class fails with \<open>TypeMismatch\<close>, and the list
  is the same afterwards; in particular its length is unchanged.
\<close>

theorem append_wrong_type_unchanged:
  "\<not> isinstance element (StructCls g) \<Longrightarrow>
   MultiGroupMetaClass_append g xs element = (Some (TypeMismatch g), xs)
   \<and> length (snd (MultiGroupMetaClass_append g xs element)) = length xs
   \<and> py_append (PMulti g xs) element = Inl (TypeMismatch g)"
  by (simp add: MultiGroupMetaClass_append_def)

theorem append_wrong_type_unchanged_witness:
  "\<not> isinstance (PDict [(''value'', PStr ''a'')]) (StructCls ''tags'')
   \<and> MultiGroupMetaClass_append ''tags'' [PInst (StructCls ''tags'') []]
        (PDict [(''value'', PStr ''a'')])
       = (Some (TypeMismatch ''tags''), [PInst (StructCls ''tags'') []])
   \<and> \<not> isinstance (PInst (StructCls ''author'') []) (StructCls ''tags'')
   \<and> MultiGroupMetaClass_append ''tags'' [] (PInst (StructCls ''author'') [])
       = (Some (TypeMismatch ''tags''), [])"
proof -
  have a: "\<not> isinstance (PDict [(''value'', PStr ''a'')]) (StructCls ''tags'')" by simp
  have b: "\<not> isinstance (PInst (StructCls ''author'') []) (StructCls ''tags'')" by simp
  show ?thesis
    using append_wrong_type_unchanged [OF a, of "[PInst (StructCls ''tags'') []]"]
      append_wrong_type_unchanged [OF b, of "[]"] a b
    by simp
qed

section \<open>Properties of the constructors\<close>

lemma missing_required_mem:
  "(r \<in> set (missing_required required kwargs)) = (r \<in> set required \<and> r \<notin> fst ` set kwargs)"
  by (auto simp: missing_required_def)

lemma required_keys_set: "set (required_keys sch) = {n. Required n \<in> fst ` set sch}"
  by (induction sch rule: required_keys.induct) (auto simp: image_iff)

lemma Base_schema_key_set: "fst ` set (Base_schema f content) = schema_key ` set content"
  by (simp add: Base_schema_def keys_fold_update)

lemma rnames_required_keys:
  "set (required_keys (Base_schema f content)) = set (rnames content)"
  by (auto simp: required_keys_set Base_schema_key_set rnames_def image_iff schema_key_Required
      eq_commute[of "Required _"])

lemma apply_dict_missing:
  assumes "r \<in> set (required_keys sch)" and "r \<notin> fst ` set d"
  shows "\<exists>e. apply_validator V (VDict sch) (PDict d) = Inl e"
proof -
  have "missing_required (required_keys sch) d \<noteq> []"
    using assms missing_required_mem [of r "required_keys sch" d] by auto
  then show ?thesis by (simp split: sum.splits)
qed

lemma validate_prepare_scratch:
  "files (validate_prepare s document meta) (id_doc meta) = Some []"
  "reldata (validate_prepare s document meta) (id_doc meta) = Some []"
  "heap (validate_prepare s document meta) document = AList.delete ''_metadata'' (heap s document)"
  by (simp_all add: validate_prepare_def Let_def)

lemma Base_schema_app_fail:
  assumes "apply_validator V (VDict (Base_schema struct_schema content)) (PDict (heap s document)) = Inl e"
  shows "Base_schema_app V content result document s = (Inl e, s)"
  using assms by (simp add: Base_schema_app_def)

lemma validate_on_failure:
  assumes "schema_app document (validate_prepare s document meta) = (Inl e, s')"
    and "files s' (id_doc meta) = Some fs"
    and "reldata s' (id_doc meta) = Some rd"
  shows "validate schema_app s document meta
           = (Inl (DocumentValidationError e),
              s'\<lparr>files := (files s')(id_doc meta := None),
                 reldata := (reldata s')(id_doc meta := None)\<rparr>)"
  using assms by (simp add: validate_def validate_rollback_def)

lemma validate_missing:
  assumes "r \<in> set (rnames content)" and "r \<notin> fst ` set (heap s document)"
  shows "\<exists>e. fst (validate (Base_schema_app V content result) s document meta)
               = Inl (DocumentValidationError e)
             \<and> files (snd (validate (Base_schema_app V content result) s document meta)) (id_doc meta) = None
             \<and> reldata (snd (validate (Base_schema_app V content result) s document meta)) (id_doc meta) = None"
proof -
  let ?p = "validate_prepare s document meta"
  have "r \<notin> fst ` set (heap ?p document)"
    using assms(2) dom_delete_subset [of "''_metadata''" "heap s document"]
    by (auto simp: validate_prepare_scratch(3))
  moreover have "r \<in> set (required_keys (Base_schema struct_schema content))"
    using assms(1) by (simp add: rnames_required_keys)
  ultimately obtain e where
    "apply_validator V (VDict (Base_schema struct_schema content)) (PDict (heap ?p document)) = Inl e"
    using apply_dict_missing by blast
  then have a: "Base_schema_app V content result document ?p = (Inl e, ?p)"
    by (rule Base_schema_app_fail)
  show ?thesis
    using validate_on_failure [of "Base_schema_app V content result" document s meta e ?p,
        OF a validate_prepare_scratch(1) validate_prepare_scratch(2)]
    by simp
qed


text \<open>
  C4. When a name of the required-name set is missing from the keyword arguments, the
  constructor generated by \<open>Base.metaclass\<close> and the constructor of every class made
  by \<open>generate_metaclass\<close> fail with \<open>MissingRequiredStructure\<close>, which names the
  missing structure, and no instance is made. When the raw document with these keys is
  validated in full, \<open>Base.validate\<close> fails and neither scratch dictionary has an entry
  for the document id afterwards.
\<close>

theorem missing_required_fails:
  assumes "r \<in> set (rnames content)" and "r \<notin> fst ` set kwargs"
  shows "r \<in> set (missing_required (rnames content) kwargs)
    \<and> BaseMetaClass_init V content kwargs
        = (Some (MissingRequiredStructure (missing_required (rnames content) kwargs)), [])
    \<and> new_instance BaseCls (BaseMetaClass_init V content kwargs)
        = Inl (MissingRequiredStructure (missing_required (rnames content) kwargs))
    \<and> MetaClass_init V (generate_metaclass c content base) kwargs
        = (Some (MissingRequiredStructure (missing_required (rnames content) kwargs)), [])
    \<and> new_instance c (MetaClass_init V (generate_metaclass c content base) kwargs)
        = Inl (MissingRequiredStructure (missing_required (rnames content) kwargs))
    \<and> (heap s document = kwargs \<longrightarrow>
         (\<exists>e. fst (validate (Base_schema_app V content result) s document meta)
                 = Inl (DocumentValidationError e))
         \<and> files (snd (validate (Base_schema_app V content result) s document meta))
               (id_doc meta) = None
         \<and> reldata (snd (validate (Base_schema_app V content result) s document meta))
               (id_doc meta) = None)"
proof -
  have m: "r \<in> set (missing_required (rnames content) kwargs)"
    using assms by (simp add: missing_required_mem)
  then have ne: "missing_required (rnames content) kwargs \<noteq> []" by auto
  have c: "BaseMetaClass_init V content kwargs
        = (Some (MissingRequiredStructure (missing_required (rnames content) kwargs)), [])
    \<and> new_instance BaseCls (BaseMetaClass_init V content kwargs)
        = Inl (MissingRequiredStructure (missing_required (rnames content) kwargs))
    \<and> MetaClass_init V (generate_metaclass c content base) kwargs
        = (Some (MissingRequiredStructure (missing_required (rnames content) kwargs)), [])
    \<and> new_instance c (MetaClass_init V (generate_metaclass c content base) kwargs)
        = Inl (MissingRequiredStructure (missing_required (rnames content) kwargs))"
    using ne
    by (simp add: BaseMetaClass_init_def MetaClass_init_def generate_metaclass_def
        validate_required_def new_instance_def)
  have v: "(\<exists>e. fst (validate (Base_schema_app V content result) s document meta)
                 = Inl (DocumentValidationError e))
         \<and> files (snd (validate (Base_schema_app V content result) s document meta))
               (id_doc meta) = None
         \<and> reldata (snd (validate (Base_schema_app V content result) s document meta))
               (id_doc meta) = None" if "heap s document = kwargs"
    using validate_missing [of r content s document V result meta] assms that by blast
  show ?thesis using m c v by blast
qed

theorem missing_required_fails_witness:
  "''author'' \<in> set (rnames ex_content)
   \<and> ''author'' \<notin> fst ` set (heap ex_state 0)
   \<and> BaseMetaClass_init ex_validator ex_content (heap ex_state 0)
       = (Some (MissingRequiredStructure [''author'']), [])
   \<and> MetaClass_init ex_validator (generate_metaclass (StructCls ''author'') ex_content None)
        (heap ex_state 0)
       = (Some (MissingRequiredStructure [''author'']), [])
   \<and> fst (validate (Base_schema_app ex_validator ex_content 1) ex_state 0 ex_meta)
       = Inl (DocumentValidationError (MissingRequiredStructure [''author'']))
   \<and> files (snd (validate (Base_schema_app ex_validator ex_content 1) ex_state 0 ex_meta))
        (id_doc ex_meta) = None
   \<and> reldata (snd (validate (Base_schema_app ex_validator ex_content 1) ex_state 0 ex_meta))
        (id_doc ex_meta) = None"
proof -
  have a: "''author'' \<in> set (rnames ex_content)"
    by (simp add: rnames_def ex_content_def)
  have b: "''author'' \<notin> fst ` set (heap ex_state 0)"
    by (simp add: ex_state_def)
  have mr: "missing_required (rnames ex_content) (heap ex_state 0) = [''author'']"
    by (simp add: missing_required_def rnames_def ex_content_def ex_state_def)
  note t = missing_required_fails [OF a b, where V = ex_validator and c = "StructCls ''author''"
      and base = None and s = ex_state and document = 0 and result = 1 and meta = ex_meta,
      unfolded mr]
  note v = t [THEN conjunct2, THEN conjunct2, THEN conjunct2, THEN conjunct2, THEN conjunct2,
      THEN mp, OF refl]
  have e: "fst (validate (Base_schema_app ex_validator ex_content 1) ex_state 0 ex_meta)
             = Inl (DocumentValidationError (MissingRequiredStructure [''author'']))"
    by (simp add: validate_def validate_prepare_def Base_schema_app_def Base_schema_def
        ex_content_def schema_key_def missing_required_def ex_state_def ex_meta_def
        validate_rollback_def Let_def)
  show ?thesis
    by (intro conjI a b e t [THEN conjunct2, THEN conjunct1]
        t [THEN conjunct2, THEN conjunct2, THEN conjunct2, THEN conjunct1]
        v [THEN conjunct2, THEN conjunct1] v [THEN conjunct2, THEN conjunct2])
qed

lemma init_loop_append:
  "init_loop assign pre slots0 = (None, slots1) \<Longrightarrow>
   init_loop assign (pre @ rest) slots0 = init_loop assign rest slots1"
  by (induction assign pre slots0 rule: init_loop.induct) (auto split: sum.splits)

lemma init_loop_fails_at:
  assumes "init_loop assign pre slots0 = (None, slots1)" and "assign slots1 k v = Inl e"
  shows "init_loop assign (pre @ (k, v) # post) slots0 = (Some e, slots1)"
  using assms by (simp add: init_loop_append)

lemma find_property_sname: "find_property content arg = Some s \<Longrightarrow> sname s = arg"
  by (auto simp: find_property_def find_Some_iff)

lemma make_meta_prop_setter_form:
  "make_meta_prop_setter V bc struct slots value = Inr slots' \<Longrightarrow>
   \<exists>w. slots' = AList.update (attr_of (sname struct)) w slots"
  by (auto simp: make_meta_prop_setter_def split: sum.splits if_splits option.splits)

lemma generate_property_setter_form:
  "generate_property_setter V bc struct slots value = Inr slots' \<Longrightarrow>
   \<exists>w. slots' = AList.update (attr_of (sname struct)) w slots"
  by (auto simp: generate_property_setter_def split: sum.splits if_splits option.splits)

lemma BaseMetaClass_assign_form:
  assumes "BaseMetaClass_assign V bc slots arg value = Inr slots'"
  shows "\<exists>k w. slots' = AList.update k w slots \<and> (True \<longrightarrow> k = attr_of arg)"
proof -
  from assms obtain s where f: "find_property bc arg = Some s"
    and m: "make_meta_prop_setter V bc s slots value = Inr slots'"
    by (auto simp: BaseMetaClass_assign_def split: if_splits option.splits)
  show ?thesis using make_meta_prop_setter_form [OF m] find_property_sname [OF f] by simp
qed

lemma MetaClass_setattr_form:
  assumes "MetaClass_setattr V mc slots arg value = Inr slots'"
  shows "\<exists>k w. slots' = AList.update k w slots
           \<and> (arg \<in> set (snames (mc_content mc)) \<and> arg \<noteq> ''_metadata'' \<longrightarrow> k = attr_of arg)"
proof (cases "mc_build_metadata mc \<and> arg = ''_metadata''")
  case True
  with assms show ?thesis
    by (auto simp: MetaClass_setattr_def split: if_splits)
next
  case False
  show ?thesis
  proof (cases "find_property (mc_content mc) arg")
    case None
    then have "arg \<notin> set (snames (mc_content mc))"
      by (auto simp: find_property_def find_None_iff snames_def)
    with assms False None show ?thesis
      by (auto simp: MetaClass_setattr_def split: if_splits)
  next
    case (Some s)
    with assms False have "generate_property_setter V (mc_base mc) s slots value = Inr slots'"
      by (auto simp: MetaClass_setattr_def split: if_splits)
    from generate_property_setter_form [OF this] find_property_sname [OF Some]
    show ?thesis by auto
  qed
qed

lemma init_loop_keys:
  assumes "\<And>slots arg value slots'. assign slots arg value = Inr slots' \<Longrightarrow>
             \<exists>k w. slots' = AList.update k w slots \<and> (P arg \<longrightarrow> k = attr_of arg)"
    and "init_loop assign pre slots0 = (None, slots1)"
  shows "fst ` set slots0 \<subseteq> fst ` set slots1
       \<and> (\<forall>k\<in>fst ` set pre. P k \<longrightarrow> attr_of k \<in> fst ` set slots1)"
  using assms(2)
proof (induction pre arbitrary: slots0)
  case Nil
  then show ?case by simp
next
  case (Cons kv kwargs)
  obtain arg v where kv: "kv = (arg, v)" by (cases kv)
  from Cons.prems kv obtain slots' where a: "assign slots0 arg v = Inr slots'"
    and l: "init_loop assign kwargs slots' = (None, slots1)"
    by (auto split: sum.splits)
  from Cons.IH [OF l] have ih: "fst ` set slots' \<subseteq> fst ` set slots1"
    "\<forall>k\<in>fst ` set kwargs. P k \<longrightarrow> attr_of k \<in> fst ` set slots1" by auto
  from assms(1) [OF a] obtain k w where u: "slots' = AList.update k w slots0"
    and p: "P arg \<longrightarrow> k = attr_of arg" by blast
  have sub: "fst ` set slots0 \<subseteq> fst ` set slots'" and kin: "k \<in> fst ` set slots'"
    using u by (auto simp: dom_update)
  show ?case
  proof (intro conjI ballI impI)
    show "fst ` set slots0 \<subseteq> fst ` set slots1" using sub ih(1) by (rule subset_trans)
  next
    fix k' assume k': "k' \<in> fst ` set (kv # kwargs)" and pk: "P k'"
    from k' kv have "k' = arg \<or> k' \<in> fst ` set kwargs" by auto
    then show "attr_of k' \<in> fst ` set slots1"
    proof
      assume "k' = arg"
      with p pk kin have "attr_of k' \<in> fst ` set slots'" by simp
      with ih(1) show ?thesis by blast
    next
      assume "k' \<in> fst ` set kwargs"
      with ih(2) pk show ?thesis by blast
    qed
  qed
qed



section \<open>The accessor of a multivalued group\<close>

text \<open>
  The list that \<open>generate_property.setter\<close> stores for a multivalued group holds
  instances of the group's class only, and \<open>append\<close> and index assignment keep it so.
\<close>

lemma generate_property_setter_multivalued:
  assumes "is_group struct" and "multivalued struct"
    and "generate_property_setter V base_content struct slots value = Inr slots'"
  shows "\<exists>xs. as_list value = Some xs
           \<and> list_all (\<lambda>element. isinstance element (StructCls (sname struct))) xs
           \<and> slots' = AList.update (attr_of (sname struct)) (PMulti (sname struct) xs) slots"
  using assms
  by (cases struct)
    (auto simp: generate_property_setter_def split: sum.splits option.splits if_splits)

lemma MultiGroupMetaClass_keeps_type:
  assumes "list_all (\<lambda>x. isinstance x (StructCls g)) xs"
  shows "list_all (\<lambda>x. isinstance x (StructCls g)) (snd (MultiGroupMetaClass_append g xs element))"
    and "list_all (\<lambda>x. isinstance x (StructCls g))
           (snd (MultiGroupMetaClass_setitem g xs index element))"
  using assms
  by (auto simp: MultiGroupMetaClass_append_def MultiGroupMetaClass_setitem_def list_setitem_def
      Let_def list_all_iff dest: set_update_subset_insert [THEN subsetD])

text \<open>
  C3, at a concrete input: a base whose content has the multivalued group \<open>tags\<close>. The
  setter of \<open>Base._make_meta_prop\<close> accepts a list of instances of the group's class and
  stores that plain list; the getter returns it, and \<open>append\<close> then adds a string to
  it. The setter of \<open>generate_property\<close> stores the checking list for the same input,
  and the same \<open>append\<close> raises \<open>TypeMismatch\<close>.
\<close>

theorem make_meta_prop_setter_plain_list:
  "make_meta_prop_setter ex_validator ex_tags_content ex_tags_group [] (PList [ex_tag])
     = Inr [(''_tags'', PList [ex_tag])]
   \<and> property_getter ex_tags_group [(''_tags'', PList [ex_tag])] = Inr (PList [ex_tag])
   \<and> isinstance (PStr ''x'') (StructCls ''tags'') = False
   \<and> py_append (PList [ex_tag]) (PStr ''x'') = Inr (PList [ex_tag, PStr ''x''])
   \<and> generate_property_setter ex_validator ex_tags_content ex_tags_group [] (PList [ex_tag])
     = Inr [(''_tags'', PMulti ''tags'' [ex_tag])]
   \<and> py_append (PMulti ''tags'' [ex_tag]) (PStr ''x'') = Inl (TypeMismatch ''tags'')"
  by (simp add: make_meta_prop_setter_def generate_property_setter_def property_getter_def
      get_struct_def ex_tags_content_def ex_tags_group_def ex_tag_def attr_of_def
      MultiGroupMetaClass_append_def)

section \<open>The round trip of the document converter\<close>

lemma allstructs_names_both:
  "((n, s) \<in> set (allstructs_of t) \<longrightarrow> sname s = n)
   \<and> ((n, s) \<in> set (allstructs ts) \<longrightarrow> sname s = n)"
  by (rule allstructs_of_allstructs.induct
      [where ?P1.0 = "\<lambda>t. (n, s) \<in> set (allstructs_of t) \<longrightarrow> sname s = n"
        and ?P2.0 = "\<lambda>ts. (n, s) \<in> set (allstructs ts) \<longrightarrow> sname s = n"]) auto

lemma allstructs_names: "(n, s) \<in> set (allstructs ts) \<Longrightarrow> sname s = n"
  using allstructs_names_both by blast

lemma allstructs_mem: "s \<in> set c \<Longrightarrow> (sname s, s) \<in> set (allstructs c)"
proof (induction c)
  case Nil then show ?case by simp
next
  case (Cons a c)
  then show ?case by (cases a) auto
qed

lemma allstructs_nested_both:
  "((n, Group n' mv req c) \<in> set (allstructs_of t) \<longrightarrow>
      set (allstructs c) \<subseteq> set (allstructs_of t))
   \<and> ((n, Group n' mv req c) \<in> set (allstructs ts) \<longrightarrow>
      set (allstructs c) \<subseteq> set (allstructs ts))"
  by (rule allstructs_of_allstructs.induct
      [where ?P1.0 = "\<lambda>t. (n, Group n' mv req c) \<in> set (allstructs_of t) \<longrightarrow>
          set (allstructs c) \<subseteq> set (allstructs_of t)"
        and ?P2.0 = "\<lambda>ts. (n, Group n' mv req c) \<in> set (allstructs ts) \<longrightarrow>
          set (allstructs c) \<subseteq> set (allstructs ts)"]) auto

lemma allstructs_nested:
  "(n, Group n' mv req c) \<in> set (allstructs ts) \<Longrightarrow> set (allstructs c) \<subseteq> set (allstructs ts)"
  using allstructs_nested_both by blast

lemma allstructs_nested_distinct_both:
  "(distinct (map fst (allstructs_of t)) \<and> (n, Group n' mv req c) \<in> set (allstructs_of t) \<longrightarrow>
      distinct (map fst (allstructs c)))
   \<and> (distinct (map fst (allstructs ts)) \<and> (n, Group n' mv req c) \<in> set (allstructs ts) \<longrightarrow>
      distinct (map fst (allstructs c)))"
  by (rule allstructs_of_allstructs.induct
      [where ?P1.0 = "\<lambda>t. distinct (map fst (allstructs_of t))
            \<and> (n, Group n' mv req c) \<in> set (allstructs_of t) \<longrightarrow>
          distinct (map fst (allstructs c))"
        and ?P2.0 = "\<lambda>ts. distinct (map fst (allstructs ts))
            \<and> (n, Group n' mv req c) \<in> set (allstructs ts) \<longrightarrow>
          distinct (map fst (allstructs c))"]) auto

lemma allstructs_nested_distinct:
  "distinct (map fst (allstructs ts)) \<Longrightarrow> (n, Group n' mv req c) \<in> set (allstructs ts) \<Longrightarrow>
     distinct (map fst (allstructs c))"
  using allstructs_nested_distinct_both by blast

lemma allstructs_distinct_snames:
  "distinct (map fst (allstructs c)) \<Longrightarrow> distinct (map sname c)"
proof (induction c)
  case Nil then show ?case by simp
next
  case (Cons a c)
  have "sname a \<notin> sname ` set c"
  proof
    assume "sname a \<in> sname ` set c"
    then obtain s where s: "s \<in> set c" "sname s = sname a" by auto
    then have "(sname a, s) \<in> set (allstructs c)" using allstructs_mem [of s c] by simp
    then have "sname a \<in> fst ` set (allstructs c)" by force
    moreover have "sname a \<in> fst ` set (allstructs_of a)" by (cases a) auto
    ultimately show False using Cons.prems by auto
  qed
  with Cons show ?case by simp
qed

lemma update_fresh: "k \<notin> fst ` set al \<Longrightarrow> AList.update k v al = al @ [(k, v)]"
  by (induction al) auto

lemma fold_update_fresh:
  "distinct (map k xs) \<Longrightarrow> k ` set xs \<inter> fst ` set acc = {} \<Longrightarrow>
   fold (\<lambda>x acc. AList.update (k x) (v x) acc) xs acc = acc @ map (\<lambda>x. (k x, v x)) xs"
proof (induction xs arbitrary: acc)
  case Nil
  then show ?case by simp
next
  case (Cons a xs)
  have f: "k a \<notin> fst ` set acc" using Cons.prems by auto
  have "k ` set xs \<inter> fst ` set (acc @ [(k a, v a)]) = {}"
    using Cons.prems by auto
  with Cons show ?case by (simp add: update_fresh [OF f])
qed

lemma map_result_map:
  "(\<And>x. x \<in> set xs \<Longrightarrow> f x = Inr (g x)) \<Longrightarrow> map_result f xs = Inr (map g xs)"
  by (induction xs) auto

lemma map_result_same:
  "map_result f xs = Inr xs \<Longrightarrow> x \<in> set xs \<Longrightarrow> f x = Inr x"
  by (auto simp: map_result_Inr_iff list_all2_same)

lemma Base_schema_map:
  "distinct (map sname c) \<Longrightarrow> Base_schema f c = map (\<lambda>s. (schema_key s, f s)) c"
proof -
  assume d: "distinct (map sname c)"
  have "distinct (map schema_key c)"
    using d inj_schema_key [OF d] by (simp add: distinct_map)
  then show ?thesis
    unfolding Base_schema_def by (simp add: fold_update_fresh)
qed

lemma key_name_schema_key [simp]: "key_name (schema_key s) = sname s"
  by (simp add: schema_key_def)

lemma apply_entries_map:
  "apply_entries V (map (\<lambda>s. (schema_key s, f s)) c) k x =
     (case find (\<lambda>s. sname s = k) c of
        None \<Rightarrow> None
      | Some s \<Rightarrow> Some (apply_validator V (f s) x))"
  by (induction c) auto

lemma apply_items_same:
  "apply_items look d = Inr d \<Longrightarrow> (k, x) \<in> set d \<Longrightarrow> look k x = Some (Inr x)"
proof (induction d)
  case Nil
  then show ?case by simp
next
  case (Cons a d)
  obtain k' x' where a: "a = (k', x')" by (cases a)
  from Cons.prems(1) a show ?case
    using Cons.IH Cons.prems(2)
    by (auto split: option.splits sum.splits)
qed

lemma valid_dict:
  assumes "distinct (map sname c)"
    and "apply_validator V (VDict (Base_schema struct_schema c)) v = Inr v"
  shows "\<exists>d. v = PDict d
           \<and> (\<forall>(k, x)\<in>set d. \<exists>s\<in>set c. sname s = k \<and> apply_validator V (struct_schema s) x = Inr x)
           \<and> set (rnames c) \<subseteq> fst ` set d"
proof -
  from assms(2) obtain d where v: "v = PDict d" by (cases v) auto
  let ?sch = "Base_schema struct_schema c"
  from assms(2) v have items: "apply_items (apply_entries V ?sch) d = Inr d"
    and miss: "missing_required (required_keys ?sch) d = []"
    by (auto split: sum.splits if_splits)
  have "\<exists>s\<in>set c. sname s = k \<and> apply_validator V (struct_schema s) x = Inr x"
    if "(k, x) \<in> set d" for k x
  proof -
    from apply_items_same [OF items that]
    have "apply_entries V (map (\<lambda>s. (schema_key s, struct_schema s)) c) k x = Some (Inr x)"
      by (simp add: Base_schema_map [OF assms(1)])
    then show ?thesis
      by (auto simp: apply_entries_map find_Some_iff split: option.splits)
  qed
  moreover have "set (rnames c) \<subseteq> fst ` set d"
  proof
    fix r assume "r \<in> set (rnames c)"
    then have "r \<in> set (required_keys ?sch)" by (simp add: rnames_required_keys)
    with miss show "r \<in> fst ` set d"
      using missing_required_mem [of r "required_keys ?sch" d] by auto
  qed
  ultimately show ?thesis using v by auto
qed

lemma find_distinct:
  "distinct (map f xs) \<Longrightarrow> x \<in> set xs \<Longrightarrow> find (\<lambda>y. f y = f x) xs = Some x"
  by (induction xs) (auto simp: image_iff)

lemma find_property_distinct:
  "distinct (map sname c) \<Longrightarrow> s \<in> set c \<Longrightarrow> find_property c (sname s) = Some s"
proof -
  assume d: "distinct (map sname c)" and m: "s \<in> set c"
  have "distinct (map sname (rev c))" using d by (simp add: rev_map [symmetric])
  moreover have "s \<in> set (rev c)" using m by simp
  ultimately show ?thesis unfolding find_property_def by (rule find_distinct)
qed

lemma find_property_None: "k \<notin> sname ` set c \<Longrightarrow> find_property c k = None"
  by (auto simp: find_property_def find_None_iff)

lemma tree_facts:
  assumes U: "distinct (map fst (allstructs bc))" and T: "tree_content bc c"
  shows "distinct (map sname c)"
    and "\<And>s. s \<in> set c \<Longrightarrow> get_struct bc (sname s) = Inr s"
    and "\<And>n mv req c'. Group n mv req c' \<in> set c \<Longrightarrow> (n, Group n mv req c') \<in> set (allstructs bc)"
    and "\<And>s. s \<in> set c \<Longrightarrow> find_property c (sname s) = Some s"
proof -
  have A: "set (allstructs c) \<subseteq> set (allstructs bc) \<and> distinct (map fst (allstructs c))"
    using T U allstructs_nested allstructs_nested_distinct
    unfolding tree_content_def by blast
  show D: "distinct (map sname c)" using A allstructs_distinct_snames by blast
  have M: "(sname s, s) \<in> set (allstructs bc)" if "s \<in> set c" for s
    using allstructs_mem [OF that] A by blast
  show "get_struct bc (sname s) = Inr s" if "s \<in> set c" for s
    using M [OF that] U by (simp add: get_struct_def)
  show "(n, Group n mv req c') \<in> set (allstructs bc)" if "Group n mv req c' \<in> set c" for n mv req c'
    using M [OF that] by simp
  show "find_property c (sname s) = Some s" if "s \<in> set c" for s
    using find_property_distinct [OF D that] .
qed

lemma link_facts:
  assumes U: "distinct (map fst (allstructs bc))" and L: "link bc c mco so cl"
  shows "tree_content bc c"
    and "class_content bc cl = Some c"
    and "(case so of None \<Rightarrow> bc | Some s \<Rightarrow> struct_content s) = c"
proof -
  show "tree_content bc c" using L unfolding link_def tree_content_def by blast
  show "class_content bc cl = Some c"
    using L U unfolding link_def by (auto simp: class_content_def get_struct_def)
  show "(case so of None \<Rightarrow> bc | Some s \<Rightarrow> struct_content s) = c"
    using L unfolding link_def by auto
qed

lemma call_metaclass_ok:
  assumes L: "link bc c mco so cl"
    and R: "set (rnames c) \<subseteq> fst ` set kw"
    and I: "init_loop (assign_of V bc mco) kw [] = (None, slots)"
  shows "call_metaclass V bc mco kw = Inr (PInst cl slots)"
proof -
  have m: "missing_required (rnames c) kw = []"
    using R by (auto simp: missing_required_def filter_empty_conv)
  from L show ?thesis unfolding link_def
  proof (elim disjE conjE exE)
    assume "mco = None" "so = None" "c = bc" "cl = BaseCls"
    then show ?thesis using m I
      by (simp add: call_metaclass_def BaseMetaClass_init_def assign_of_def new_instance_def)
  next
    fix n mv req
    assume "mco = Some (generate_metaclass (StructCls n) c (Some bc))" "cl = StructCls n"
    then show ?thesis using m I
      by (simp add: call_metaclass_def MetaClass_init_def assign_of_def new_instance_def
          generate_metaclass_def validate_required_def)
  qed
qed

lemma json2document_PDict:
  "json2document V bc (PDict d) mco =
     (case map_result (json_member V bc) d of
        Inl e \<Rightarrow> Inl e
      | Inr kwargs \<Rightarrow> call_metaclass V bc mco kwargs)"
  by (simp add: json2document.simps json_member_def)

lemma document2dict_unfold:
  "document2dict bc document struct =
     (case map_result (dict_entry bc document)
             (snames (case struct of None \<Rightarrow> bc | Some s \<Rightarrow> struct_content s)) of
        Inl e \<Rightarrow> Inl e
      | Inr entries \<Rightarrow> Inr (PDict (dict_of_entries entries)))"
  by (subst document2dict.simps) (simp add: dict_entry_def [abs_def])

lemma is_group_iff: "is_group s = (\<not> is_field s)"
  by (cases s) auto

lemma assign_child:
  assumes U: "distinct (map fst (allstructs bc))" and L: "link bc c mco so cl"
    and S: "s \<in> set c"
  shows "is_field s \<Longrightarrow> FieldMetaClass_init V s y = Inr w \<Longrightarrow>
           assign_of V bc mco slots (sname s) y = Inr (AList.update (attr_of (sname s)) w slots)"
    and "\<not> is_field s \<Longrightarrow> \<not> multivalued s \<Longrightarrow> isinstance y (StructCls (sname s)) \<Longrightarrow>
           assign_of V bc mco slots (sname s) y = Inr (AList.update (attr_of (sname s)) y slots)"
    and "\<not> is_field s \<Longrightarrow> multivalued s \<Longrightarrow>
           list_all (\<lambda>e. isinstance e (StructCls (sname s))) xs \<Longrightarrow>
           assign_of V bc mco slots (sname s) (PList xs)
             = Inr (AList.update (attr_of (sname s))
                      (if mco = None then PList xs else PMulti (sname s) xs) slots)"
proof -
  note T = link_facts(1) [OF U L]
  note g = tree_facts(2) [OF U T S]
  note f = tree_facts(4) [OF U T S]
  have n: "sname s \<in> set (snames c)" using S by (simp add: snames_def)
  have A: "assign_of V bc mco slots (sname s) v =
        (if mco = None then make_meta_prop_setter V bc s slots v
         else generate_property_setter V bc s slots v)" for v
    using L f n unfolding link_def
    by (auto simp: assign_of_def BaseMetaClass_assign_def MetaClass_setattr_def
        generate_metaclass_def)
  show "is_field s \<Longrightarrow> FieldMetaClass_init V s y = Inr w \<Longrightarrow>
           assign_of V bc mco slots (sname s) y = Inr (AList.update (attr_of (sname s)) w slots)"
    by (simp add: A make_meta_prop_setter_def generate_property_setter_def g
        call_field_metaclass_def)
  show "\<not> is_field s \<Longrightarrow> \<not> multivalued s \<Longrightarrow> isinstance y (StructCls (sname s)) \<Longrightarrow>
           assign_of V bc mco slots (sname s) y = Inr (AList.update (attr_of (sname s)) y slots)"
    by (simp add: A make_meta_prop_setter_def generate_property_setter_def g)
  show "\<not> is_field s \<Longrightarrow> multivalued s \<Longrightarrow>
           list_all (\<lambda>e. isinstance e (StructCls (sname s))) xs \<Longrightarrow>
           assign_of V bc mco slots (sname s) (PList xs)
             = Inr (AList.update (attr_of (sname s))
                      (if mco = None then PList xs else PMulti (sname s) xs) slots)"
    by (simp add: A make_meta_prop_setter_def generate_property_setter_def g)
qed

lemma getattr_child:
  assumes U: "distinct (map fst (allstructs bc))" and L: "link bc c mco so cl"
    and S: "s \<in> set c"
  shows "py_getattr bc (PInst cl slots) (sname s) = property_getter s slots"
  using link_facts(2) [OF U L] tree_facts(4) [OF U link_facts(1) [OF U L] S]
  by simp

lemma py_eq_refl: "wf_json v \<Longrightarrow> py_eq v v"
proof (induction v rule: wf_json.induct)
  case (1 d)
  have "case map_of d k of None \<Rightarrow> False | Some w \<Rightarrow> py_eq v w" if "(k, v) \<in> set d" for k v
  proof -
    have "map_of d k = Some v" using that "1.prems" by simp
    moreover have "wf_json v" using that "1.prems" by (auto simp: list_all_iff)
    ultimately show ?thesis using "1.IH" [OF that] by simp
  qed
  then show ?case by (auto simp: list_all_iff)
next
  case (2 xs)
  then show ?case by (auto simp: list_all_iff list_all2_same)
qed simp_all

lemma field_init_norm:
  assumes "is_field s" and "apply_validator V (struct_schema s) x = Inr x"
  shows "FieldMetaClass_init V s x = Inr (PField (sname s) x)"
proof -
  from assms(1) obtain n dt req mv where s: "s = Field n dt req mv" by (cases s) auto
  show ?thesis
  proof (cases mv)
    case False
    with assms(2) s show ?thesis
      by (simp add: FieldMetaClass_init_def FieldMetaClass_setattr_def)
  next
    case True
    with assms(2) s obtain xs ys where a: "as_list x = Some xs"
      and m: "map_result (apply_validator V (VField s)) xs = Inr ys" and x: "x = PList ys"
      by (auto split: option.splits sum.splits)
    from a x have "xs = ys" by simp
    have "map_result (V s) xs = map_result (apply_validator V (VField s)) xs"
      by (rule map_result_cong) simp_all
    with m \<open>xs = ys\<close> have "map_result (V s) ys = Inr ys" by simp
    with True s x show ?thesis
      by (simp add: FieldMetaClass_init_def FieldMetaClass_setattr_def)
  qed
qed

lemma item_field:
  assumes U: "distinct (map fst (allstructs bc))" and L: "link bc c mco so cl"
    and S: "s \<in> set c" and F: "is_field s"
    and A: "apply_validator V (struct_schema s) x = Inr x" and W: "wf_json x"
  shows "item_ok V bc mco cl s x"
proof -
  note T = link_facts(1) [OF U L]
  note g = tree_facts(2) [OF U T S]
  have 1: "json_member V bc (sname s, x) = Inr (sname s, x)"
    using g F by (simp add: json_member_def)
  have 2: "assign_of V bc mco slots (sname s) x
             = Inr (AList.update (attr_of (sname s)) (PField (sname s) x) slots)" for slots
    by (rule assign_child(1) [OF U L S F field_init_norm [OF F A]])
  have 3: "dict_entry bc (PInst cl slots) (sname s) = Inr (Some (sname s, x))"
    if "map_of slots (attr_of (sname s)) = Some (PField (sname s) x)" for slots
    using that g F
    by (simp add: dict_entry_def getattr_child [OF U L S] property_getter_def
        del: py_getattr.simps)
  show ?thesis unfolding item_ok_def
    using 1 2 3 py_eq_refl [OF W] by blast
qed

lemma item_group_single:
  assumes U: "distinct (map fst (allstructs bc))" and L: "link bc c mco so cl"
    and S: "s \<in> set c" and G: "s = Group n False req c'"
    and R: "RT V bc x (Some (generate_metaclass (StructCls n) c' (Some bc))) (Some s) (StructCls n)"
  shows "item_ok V bc mco cl s x"
proof -
  note T = link_facts(1) [OF U L]
  note g = tree_facts(2) [OF U T S]
  from R obtain slots' out where
    j: "json2document V bc x (Some (generate_metaclass (StructCls n) c' (Some bc)))
          = Inr (PInst (StructCls n) slots')"
    and d: "document2dict bc (PInst (StructCls n) slots') (Some s) = Inr (PDict out)"
    and e: "py_eq (PDict out) x"
    unfolding RT_def by blast
  have nf: "\<not> is_field s" "\<not> multivalued s" and sn: "sname s = n" using G by simp_all
  have 1: "json_member V bc (sname s, x) = Inr (sname s, PInst (StructCls n) slots')"
    using g G j by (simp add: json_member_def get_metaclass_def)
  have 2: "assign_of V bc mco slots (sname s) (PInst (StructCls n) slots')
             = Inr (AList.update (attr_of (sname s)) (PInst (StructCls n) slots') slots)" for slots
    by (rule assign_child(2) [OF U L S nf]) (simp add: sn)
  have 3: "dict_entry bc (PInst cl slots) (sname s) = Inr (Some (sname s, PDict out))"
    if "map_of slots (attr_of (sname s)) = Some (PInst (StructCls n) slots')" for slots
    using that g nf d
    by (simp add: dict_entry_def getattr_child [OF U L S] property_getter_def
        del: py_getattr.simps)
  show ?thesis unfolding item_ok_def
    using 1 2 3 e by blast
qed

lemma map_result_ex:
  "(\<And>x. x \<in> set xs \<Longrightarrow> \<exists>y. f x = Inr y \<and> Q x y) \<Longrightarrow>
   \<exists>ys. map_result f xs = Inr ys \<and> list_all2 Q xs ys"
proof (induction xs)
  case Nil
  then show ?case by simp
next
  case (Cons a xs)
  from Cons.prems [of a] obtain y where y: "f a = Inr y" "Q a y" by auto
  from Cons.IH Cons.prems obtain ys where ys: "map_result f xs = Inr ys" "list_all2 Q xs ys"
    by auto
  show ?case using y ys by auto
qed

lemma map_result_ex2:
  "list_all2 (\<lambda>x y. \<exists>z. g y = Inr z \<and> P z x) xs ys \<Longrightarrow>
   \<exists>zs. map_result g ys = Inr zs \<and> list_all2 P zs xs"
  by (induction xs ys rule: list_all2_induct) auto

lemma item_group_multi:
  assumes U: "distinct (map fst (allstructs bc))" and L: "link bc c mco so cl"
    and S: "s \<in> set c" and G: "s = Group n True req c'"
    and R: "\<And>e. e \<in> set xs \<Longrightarrow>
      RT V bc e (Some (generate_metaclass (StructCls n) c' (Some bc))) (Some s) (StructCls n)"
  shows "item_ok V bc mco cl s (PList xs)"
proof -
  let ?mc = "generate_metaclass (StructCls n) c' (Some bc)"
  note T = link_facts(1) [OF U L]
  note g = tree_facts(2) [OF U T S]
  have nf: "\<not> is_field s" "multivalued s" and sn: "sname s = n" using G by simp_all
  let ?Q = "\<lambda>e doc. \<exists>z. document2dict bc doc (Some s) = Inr z
                 \<and> (isinstance doc (StructCls n) \<and> py_eq z e)"
  have "\<exists>doc. json2document V bc e (Some ?mc) = Inr doc \<and> ?Q e doc" if "e \<in> set xs" for e
    using R [OF that] unfolding RT_def by auto
  from map_result_ex [of xs "\<lambda>e. json2document V bc e (Some ?mc)" ?Q, OF this]
  obtain docs where j: "map_result (\<lambda>e. json2document V bc e (Some ?mc)) xs = Inr docs"
    and q: "list_all2 ?Q xs docs" by blast
  have q1: "list_all2 (\<lambda>e doc. \<exists>z. document2dict bc doc (Some s) = Inr z \<and> py_eq z e) xs docs"
    using q by (rule list_all2_mono) blast
  from map_result_ex2 [OF q1]
  obtain outs where o: "map_result (\<lambda>doc. document2dict bc doc (Some s)) docs = Inr outs"
    and pe: "list_all2 py_eq outs xs" by blast
  have inst: "list_all (\<lambda>e. isinstance e (StructCls (sname s))) docs"
    using q by (auto simp: list_all_iff list_all2_conv_all_nth in_set_conv_nth sn)
  let ?st = "if mco = None then PList docs else PMulti (sname s) docs"
  have 1: "json_member V bc (sname s, PList xs) = Inr (sname s, PList docs)"
    using g G j by (simp add: json_member_def get_metaclass_def)
  have 2: "assign_of V bc mco slots (sname s) (PList docs)
             = Inr (AList.update (attr_of (sname s)) ?st slots)" for slots
    by (rule assign_child(3) [OF U L S nf inst])
  have it: "py_iter ?st = Inr docs" by simp
  have 3: "dict_entry bc (PInst cl slots) (sname s) = Inr (Some (sname s, PList outs))"
    if "map_of slots (attr_of (sname s)) = Some ?st" for slots
    using that g nf o it
    by (simp add: dict_entry_def getattr_child [OF U L S] property_getter_def
        del: py_getattr.simps)
  have 4: "py_eq (PList outs) (PList xs)" using pe by simp
  show ?thesis unfolding item_ok_def
    using 1 2 3 4 by blast
qed

lemma init_loop_map:
  "(\<And>x slots. x \<in> set xs \<Longrightarrow> assign slots (kf x) (yf x) = Inr (AList.update (af x) (sf x) slots)) \<Longrightarrow>
   init_loop assign (map (\<lambda>x. (kf x, yf x)) xs) slots0
     = (None, fold (\<lambda>x acc. AList.update (af x) (sf x) acc) xs slots0)"
  by (induction xs arbitrary: slots0) auto

lemma dict_of_entries_map:
  assumes "distinct ns"
  shows "dict_of_entries (map (\<lambda>n. if n \<in> K then Some (n, W n) else None) ns)
           = map (\<lambda>n. (n, W n)) (filter (\<lambda>n. n \<in> K) ns)"
proof -
  have "fold (\<lambda>entry dictobj. case entry of None \<Rightarrow> dictobj | Some (k, w) \<Rightarrow> AList.update k w dictobj)
          (map (\<lambda>n. if n \<in> K then Some (n, W n) else None) ns) acc
        = fold (\<lambda>n acc. AList.update n (W n) acc) (filter (\<lambda>n. n \<in> K) ns) acc" for acc
    by (induction ns arbitrary: acc) auto
  moreover have "distinct (map (\<lambda>n. n) (filter (\<lambda>n. n \<in> K) ns))" using assms by simp
  ultimately show ?thesis
    unfolding dict_of_entries_def
    using fold_update_fresh [of "\<lambda>n. n" "filter (\<lambda>n. n \<in> K) ns" "[]" W] by simp
qed

lemma attr_of_inj [simp]: "(attr_of a = attr_of b) = (a = b)"
  by (simp add: attr_of_def)

lemma assemble:
  assumes U: "distinct (map fst (allstructs bc))" and L: "link bc c mco so cl"
    and D: "distinct (map fst d)"
    and I: "\<And>k x. (k, x) \<in> set d \<Longrightarrow> \<exists>s\<in>set c. sname s = k \<and> item_ok V bc mco cl s x"
    and R: "set (rnames c) \<subseteq> fst ` set d"
  shows "RT V bc (PDict d) mco so cl"
proof -
  note T = link_facts(1) [OF U L]
  note dc = tree_facts(1) [OF U T]
  have "\<forall>kx\<in>set d. \<exists>t. fst kx \<in> sname ` set c
      \<and> json_member V bc kx = Inr (fst kx, fst t)
      \<and> (\<forall>slots. assign_of V bc mco slots (fst kx) (fst t)
                   = Inr (AList.update (attr_of (fst kx)) (fst (snd t)) slots))
      \<and> (\<forall>slots. map_of slots (attr_of (fst kx)) = Some (fst (snd t)) \<longrightarrow>
             dict_entry bc (PInst cl slots) (fst kx) = Inr (Some (fst kx, snd (snd t))))
      \<and> py_eq (snd (snd t)) (snd kx)"
  proof
    fix kx assume m: "kx \<in> set d"
    obtain k x where kx: "kx = (k, x)" by (cases kx)
    from I [of k x] m kx obtain s where s: "s \<in> set c" "sname s = k" "item_ok V bc mco cl s x"
      by auto
    from s(3) obtain y st w where
      "json_member V bc (sname s, x) = Inr (sname s, y)"
      "\<forall>slots. assign_of V bc mco slots (sname s) y = Inr (AList.update (attr_of (sname s)) st slots)"
      "\<forall>slots. map_of slots (attr_of (sname s)) = Some st \<longrightarrow>
               dict_entry bc (PInst cl slots) (sname s) = Inr (Some (sname s, w))"
      "py_eq w x"
      unfolding item_ok_def by blast
    then show "\<exists>t. fst kx \<in> sname ` set c
      \<and> json_member V bc kx = Inr (fst kx, fst t)
      \<and> (\<forall>slots. assign_of V bc mco slots (fst kx) (fst t)
                   = Inr (AList.update (attr_of (fst kx)) (fst (snd t)) slots))
      \<and> (\<forall>slots. map_of slots (attr_of (fst kx)) = Some (fst (snd t)) \<longrightarrow>
             dict_entry bc (PInst cl slots) (fst kx) = Inr (Some (fst kx, snd (snd t))))
      \<and> py_eq (snd (snd t)) (snd kx)"
      using s(1,2) kx by (intro exI [of _ "(y, st, w)"]) auto
  qed
  from bchoice [OF this] obtain t where t: "\<forall>kx\<in>set d. fst kx \<in> sname ` set c
      \<and> json_member V bc kx = Inr (fst kx, fst (t kx))
      \<and> (\<forall>slots. assign_of V bc mco slots (fst kx) (fst (t kx))
                   = Inr (AList.update (attr_of (fst kx)) (fst (snd (t kx))) slots))
      \<and> (\<forall>slots. map_of slots (attr_of (fst kx)) = Some (fst (snd (t kx))) \<longrightarrow>
             dict_entry bc (PInst cl slots) (fst kx) = Inr (Some (fst kx, snd (snd (t kx)))))
      \<and> py_eq (snd (snd (t kx))) (snd kx)" by blast
  define Y where "Y kx = fst (t kx)" for kx
  define ST where "ST kx = fst (snd (t kx))" for kx
  define W where "W n = snd (snd (t (n, the (map_of d n))))" for n
  have keys: "fst ` set d \<subseteq> sname ` set c" using t by auto
  have mo: "map_of d k = Some x" if "(k, x) \<in> set d" for k x using that D by simp
  have Wk: "snd (snd (t (k, x))) = W k" if "(k, x) \<in> set d" for k x
    using mo [OF that] by (simp add: W_def)
  let ?kw = "map (\<lambda>kx. (fst kx, Y kx)) d"
  let ?slots = "map (\<lambda>kx. (attr_of (fst kx), ST kx)) d"
  have j1: "map_result (json_member V bc) d = Inr ?kw"
    by (rule map_result_map) (use t in \<open>simp add: Y_def\<close>)
  have "init_loop (assign_of V bc mco) ?kw []
          = (None, fold (\<lambda>kx acc. AList.update (attr_of (fst kx)) (ST kx) acc) d [])"
    by (rule init_loop_map) (use t in \<open>simp add: Y_def ST_def\<close>)
  moreover have "distinct (map (\<lambda>kx. attr_of (fst kx)) d)"
    using D by (simp add: distinct_map inj_on_def)
  ultimately have il: "init_loop (assign_of V bc mco) ?kw [] = (None, ?slots)"
    using fold_update_fresh [of "\<lambda>kx. attr_of (fst kx)" d "[]" ST] by simp
  have "set (rnames c) \<subseteq> fst ` set ?kw" using R by (simp add: image_image)
  from call_metaclass_ok [OF L this il]
  have j: "json2document V bc (PDict d) mco = Inr (PInst cl ?slots)"
    by (simp add: json2document_PDict j1)
  have ds: "distinct (map fst ?slots)"
    using \<open>distinct (map (\<lambda>kx. attr_of (fst kx)) d)\<close> by (simp add: comp_def)
  have e1: "dict_entry bc (PInst cl ?slots) n = Inr (Some (n, W n))" if "n \<in> fst ` set d" for n
  proof -
    from that obtain x where x: "(n, x) \<in> set d" by auto
    have "(attr_of n, ST (n, x)) \<in> set ?slots" using x by force
    then have "map_of ?slots (attr_of n) = Some (ST (n, x))" using ds by simp
    then show ?thesis using t x Wk [OF x] by (auto simp: ST_def)
  qed
  have e2: "dict_entry bc (PInst cl ?slots) n = Inr None"
    if "n \<in> set (snames c)" "n \<notin> fst ` set d" for n
  proof -
    from that(1) obtain s where s: "s \<in> set c" "sname s = n" by (auto simp: snames_def)
    have "attr_of n \<notin> fst ` set ?slots" using that(2) by (auto simp: image_iff)
    then have "map_of ?slots (attr_of n) = None" by (simp add: map_of_eq_None_iff)
    then show ?thesis using s getattr_child [OF U L s(1), of ?slots]
      by (simp add: dict_entry_def property_getter_def del: py_getattr.simps)
  qed
  have dsn: "distinct (snames c)" using dc by (simp add: snames_def)
  have "map_result (dict_entry bc (PInst cl ?slots)) (snames c)
          = Inr (map (\<lambda>n. if n \<in> fst ` set d then Some (n, W n) else None) (snames c))"
    by (rule map_result_map) (use e1 e2 in auto)
  then have dd: "document2dict bc (PInst cl ?slots) so
          = Inr (PDict (map (\<lambda>n. (n, W n)) (filter (\<lambda>n. n \<in> fst ` set d) (snames c))))"
    by (simp add: document2dict_unfold link_facts(3) [OF U L] dict_of_entries_map [OF dsn])
  let ?out = "map (\<lambda>n. (n, W n)) (filter (\<lambda>n. n \<in> fst ` set d) (snames c))"
  have "set (filter (\<lambda>n. n \<in> fst ` set d) (snames c)) = fst ` set d"
    using keys by (auto simp: snames_def)
  then have k: "fst ` set ?out = fst ` set d"
    by (simp add: image_image del: set_filter)
  have v: "case map_of d n of None \<Rightarrow> False | Some x \<Rightarrow> py_eq (W n) x" if "n \<in> fst ` set d" for n
  proof -
    from that obtain x where x: "(n, x) \<in> set d" by auto
    then have "py_eq (W n) x" using t Wk [OF x] by force
    then show ?thesis using mo [OF x] by simp
  qed
  have "py_eq (PDict ?out) (PDict d)"
    using k v by (simp add: list_all_iff)
  with j dd show ?thesis unfolding RT_def by blast
qed

lemma roundtrip_rec:
  assumes U: "distinct (map fst (allstructs bc))"
  shows "link bc c mco so cl \<Longrightarrow> wf_json v \<Longrightarrow>
         apply_validator V (VDict (Base_schema struct_schema c)) v = Inr v \<Longrightarrow>
         RT V bc v mco so cl"
proof (induction v arbitrary: c mco so cl rule: measure_induct_rule [where f = size])
  case (less v)
  note L = less.prems(1)
  note T = link_facts(1) [OF U L]
  note dc = tree_facts(1) [OF U T]
  from valid_dict [OF dc less.prems(3)] obtain d where v: "v = PDict d"
    and items: "\<forall>(k, x)\<in>set d. \<exists>s\<in>set c. sname s = k \<and> apply_validator V (struct_schema s) x = Inr x"
    and rn: "set (rnames c) \<subseteq> fst ` set d" by blast
  from less.prems(2) v have D: "distinct (map fst d)"
    and wfx: "\<And>k x. (k, x) \<in> set d \<Longrightarrow> wf_json x" by (auto simp: list_all_iff)
  have "\<exists>s\<in>set c. sname s = k \<and> item_ok V bc mco cl s x" if m: "(k, x) \<in> set d" for k x
  proof -
    from items m obtain s where s: "s \<in> set c" "sname s = k"
      and A: "apply_validator V (struct_schema s) x = Inr x" by blast
    have sz: "size x < size v" using size_snd_mem [OF m] v by simp
    have "item_ok V bc mco cl s x"
    proof (cases s)
      case (Field n dt req mv)
      then have "is_field s" by simp
      from item_field [OF U L s(1) this A wfx [OF m]] show ?thesis .
    next
      case (Group n mv req c')
      let ?mc = "generate_metaclass (StructCls n) c' (Some bc)"
      have "(n, Group n mv req c') \<in> set (allstructs bc)"
        using tree_facts(3) [OF U T] s(1) Group by blast
      then have L': "link bc c' (Some ?mc) (Some s) (StructCls n)"
        unfolding link_def using Group by blast
      show ?thesis
      proof (cases mv)
        case False
        with A Group have "apply_validator V (VDict (Base_schema struct_schema c')) x = Inr x"
          by simp
        from less.IH [OF sz L' wfx [OF m] this]
        show ?thesis using item_group_single [OF U L s(1)] Group False by blast
      next
        case True
        with A Group obtain xs ys where a: "as_list x = Some xs"
          and mr: "map_result (apply_validator V (VDict (Base_schema struct_schema c'))) xs = Inr ys"
          and x: "x = PList ys"
          by (auto split: option.splits sum.splits)
        from a x have xy: "xs = ys" by simp
        have "RT V bc e (Some ?mc) (Some s) (StructCls n)" if e: "e \<in> set ys" for e
        proof -
          have "apply_validator V (VDict (Base_schema struct_schema c')) e = Inr e"
            using map_result_same [OF mr [unfolded xy] e] .
          moreover have "size e < size v"
            using e x sz by (auto simp: less_Suc_eq_le dest!: size_list_estimation' [where f = size and y = "size e"])
          moreover have "wf_json e" using wfx [OF m] x e by (simp add: list_all_iff)
          ultimately show ?thesis using less.IH [OF _ L'] by blast
        qed
        then have "item_ok V bc mco cl s (PList ys)"
          using item_group_multi [OF U L s(1), of n req c' ys V] Group True by blast
        then show ?thesis by (simp add: x)
      qed
    qed
    with s show ?thesis by blast
  qed
  from assemble [OF U L D this rn] show ?case by (simp add: v)
qed

lemma validate_on_success:
  assumes "schema_app document (validate_prepare s document meta) = (Inr d, s')"
    and "reldata s' (id_doc meta) = Some rd"
    and "files s' (id_doc meta) = Some fs"
  shows "fst (validate schema_app s document meta) = Inr (d, rd, fs, [])"
  using assms by (simp add: validate_def Let_def)

lemma validate_valid:
  assumes "apply_validator V (VDict (Base_schema struct_schema bc))
             (PDict (AList.delete ''_metadata'' (heap s document))) = Inr v"
  shows "fst (validate (Base_schema_app V bc result) s document meta) = Inr (result, [], [], [])"
proof -
  let ?p = "validate_prepare s document meta"
  from assms obtain d' where v: "v = PDict d'" by (auto split: option.splits sum.splits if_splits)
  have "Base_schema_app V bc result document ?p = (Inr result, ?p\<lparr>heap := (heap ?p)(result := d')\<rparr>)"
    using assms v by (simp add: Base_schema_app_def validate_prepare_scratch(3))
  from validate_on_success [of "Base_schema_app V bc result" document s meta, OF this]
  show ?thesis
    by (simp add: validate_prepare_scratch)
qed



text \<open>
  The names have to be unique over the tree because \<open>json2document\<close> and the setters
  find a structure by its name alone: when a name is used on two branches, one
  structure stands for both. Here the schema accepts the document and returns it
  unchanged, and the conversion fails, the integer of \<open>author.name\<close> being validated as
  the text of the root's \<open>name\<close>.
\<close>

lemma roundtrip_name_clash_example:
  "\<not> distinct (map fst (allstructs ex_clash_content))
   \<and> wf_json ex_clash_doc
   \<and> apply_validator ex_validator (VDict (Base_schema struct_schema ex_clash_content)) ex_clash_doc
       = Inr ex_clash_doc
   \<and> json2document ex_validator ex_clash_content ex_clash_doc None
       = Inl (FieldValidationError ''name'')"
  by (simp add: json2document.simps ex_clash_doc_def ex_clash_content_def get_struct_def
      get_metaclass_def generate_metaclass_def call_metaclass_def MetaClass_init_def
      validate_required_def missing_required_def rnames_def MetaClass_setattr_def
      find_property_def generate_property_setter_def call_field_metaclass_def
      FieldMetaClass_init_def FieldMetaClass_setattr_def attr_of_def new_instance_def
      BaseMetaClass_init_def BaseMetaClass_assign_def snames_def make_meta_prop_setter_def
      Base_schema_def schema_key_def slot_names_def)


end
